theory Spec2Isabelle
  imports Main "HOL-Library.Char_ord" "HOL-Library.List_Lexorder"
begin

section \<open>JavaScript values seen by the write batch\<close>

text \<open>
  The embedding follows \<^verbatim>\<open>dev/src/update-builder.ts\<close>. User supplied arguments are
  JavaScript values; only the shapes the builder inspects are distinguished. A
  \<^verbatim>\<open>FieldPath\<close> instance carries an object identity, because the update map is a
  JavaScript \<^verbatim>\<open>Map\<close> keyed by object identity.
\<close>

datatype Timestamp = Timestamp int int

datatype jsval =
    JUndefined
  | JNull
  | JBool bool
  | JNum int
  | JStr string
  | JTimestamp Timestamp
  | JFieldPath nat "string list"
  | JArr "jsval list"
  | JObj "(string \<times> jsval) list"

text \<open>\<^verbatim>\<open>obj[key]\<close>, \<^verbatim>\<open>key in obj\<close> and \<^verbatim>\<open>Object.keys(obj)\<close> on a plain object.\<close>

fun getProp :: "jsval \<Rightarrow> string \<Rightarrow> jsval" where
  "getProp (JObj kvs) k = (case map_of kvs k of None \<Rightarrow> JUndefined | Some v \<Rightarrow> v)"
| "getProp v k = JUndefined"

fun hasProp :: "jsval \<Rightarrow> string \<Rightarrow> bool" where
  "hasProp (JObj kvs) k = (k \<in> set (map fst kvs))"
| "hasProp v k = False"

fun keys :: "jsval \<Rightarrow> string list" where
  "keys (JObj kvs) = remdups (map fst kvs)"
| "keys v = []"

text \<open>\<^verbatim>\<open>typeof value === 'object'\<close> (true of \<^verbatim>\<open>null\<close>, arrays and instances).\<close>

fun typeofObject :: "jsval \<Rightarrow> bool" where
  "typeofObject JNull = True"
| "typeofObject (JTimestamp t) = True"
| "typeofObject (JFieldPath i s) = True"
| "typeofObject (JArr vs) = True"
| "typeofObject (JObj kvs) = True"
| "typeofObject v = False"

text \<open>
  Modelled from the spec: \<^verbatim>\<open>isObject\<close> and \<^verbatim>\<open>isPlainObject\<close> of \<^verbatim>\<open>util.ts\<close> and
  \<^verbatim>\<open>validateOptional\<close> of \<^verbatim>\<open>validate.ts\<close> are not among the sources. A plain object
  is an object literal; an object is a plain object or a class instance; an optional
  argument may be left out (\<^verbatim>\<open>undefined\<close>).
\<close>

fun isPlainObject :: "jsval \<Rightarrow> bool" where
  "isPlainObject (JObj kvs) = True"
| "isPlainObject v = False"

fun isObject :: "jsval \<Rightarrow> bool" where
  "isObject (JObj kvs) = True"
| "isObject (JTimestamp t) = True"
| "isObject (JFieldPath i s) = True"
| "isObject v = False"

definition validateOptional :: "jsval \<Rightarrow> bool \<Rightarrow> bool" where
  "validateOptional v optional = (v = JUndefined \<and> optional)"

section \<open>Field paths\<close>

text \<open>
  Modelled from the spec: the class \<^verbatim>\<open>FieldPath\<close> (\<^verbatim>\<open>path.ts\<close>) is not among the
  sources. A field path is its list of segments; a dot-separated string names the path
  of its segments; \<^verbatim>\<open>isPrefixOf\<close> is the prefix relation on segments and
  \<^verbatim>\<open>compareTo\<close> compares segment by segment, a proper prefix coming first.
\<close>

type_synonym FieldPath = "string list"

fun splitDots :: "string \<Rightarrow> string \<Rightarrow> string list" where
  "splitDots acc [] = [rev acc]"
| "splitDots acc (c # cs) =
     (if c = CHR ''.'' then rev acc # splitDots [] cs else splitDots (c # acc) cs)"

fun isPrefixOf :: "FieldPath \<Rightarrow> FieldPath \<Rightarrow> bool" where
  "isPrefixOf [] q = True"
| "isPrefixOf (a # p) [] = False"
| "isPrefixOf (a # p) (b # q) = (a = b \<and> isPrefixOf p q)"

fun compareTo :: "FieldPath \<Rightarrow> FieldPath \<Rightarrow> int" where
  "compareTo [] [] = 0"
| "compareTo [] (b # q) = - 1"
| "compareTo (a # p) [] = 1"
| "compareTo (a # p) (b # q) =
     (if a < b then - 1 else if b < a then 1 else compareTo p q)"

text \<open>
  \<^verbatim>\<open>Array.prototype.sort(compare)\<close>: a stable sort by the comparison function,
  written as insertion sort (an element goes before the elements it does not exceed).
\<close>

fun insortBy :: "('a \<Rightarrow> 'a \<Rightarrow> int) \<Rightarrow> 'a \<Rightarrow> 'a list \<Rightarrow> 'a list" where
  "insortBy cmp x [] = [x]"
| "insortBy cmp x (y # ys) =
     (if cmp x y \<le> 0 then x # y # ys else y # insortBy cmp x ys)"

fun sortBy :: "('a \<Rightarrow> 'a \<Rightarrow> int) \<Rightarrow> 'a list \<Rightarrow> 'a list" where
  "sortBy cmp [] = []"
| "sortBy cmp (x # xs) = insortBy cmp x (sortBy cmp xs)"

text \<open>
  A key of the update map: a \<^verbatim>\<open>FieldPath\<close> object. \<^verbatim>\<open>FieldPath.fromArgument\<close> returns
  the caller's object when given one and allocates a new object for a string; the new
  object is identified by the position of the argument.
\<close>

datatype ObjId = Given nat | Fresh nat

type_synonym FieldPathObj = "ObjId \<times> FieldPath"

type_synonym UpdateMap = "(FieldPathObj \<times> jsval) list"

fun fromArgument :: "nat \<Rightarrow> jsval \<Rightarrow> FieldPathObj" where
  "fromArgument pos (JFieldPath i segs) = (Given i, segs)"
| "fromArgument pos (JStr s) = (Fresh pos, splitDots [] s)"
| "fromArgument pos v = (Fresh pos, [])"

text \<open>\<^verbatim>\<open>Map.prototype.set\<close>: overwrite the entry of an existing key, else append.\<close>

fun mapSet :: "('k \<times> 'v) list \<Rightarrow> 'k \<Rightarrow> 'v \<Rightarrow> ('k \<times> 'v) list" where
  "mapSet [] k v = [(k, v)]"
| "mapSet ((k', v') # m) k v =
     (if k' = k then (k, v) # m else (k', v') # mapSet m k v)"

text \<open>\<^verbatim>\<open>Set.prototype.add\<close> on a set kept in insertion order.\<close>

definition setAdd :: "'a list \<Rightarrow> 'a \<Rightarrow> 'a list" where
  "setAdd s x = (if x \<in> set s then s else s @ [x])"

section \<open>Wire messages\<close>

text \<open>
  Modelled from the spec: \<^verbatim>\<open>Timestamp.fromProto\<close> and \<^verbatim>\<open>Timestamp.toProto\<close>
  (\<^verbatim>\<open>timestamp.ts\<close>) are not among the sources; a wire timestamp is a pair of
  seconds and nanoseconds.
\<close>

type_synonym ITimestamp = "int \<times> int"

fun fromProto :: "ITimestamp \<Rightarrow> Timestamp" where
  "fromProto (s, n) = Timestamp s n"

fun timestampToProto :: "Timestamp \<Rightarrow> ITimestamp" where
  "timestampToProto (Timestamp s n) = (s, n)"

type_synonym bytes = "nat list"

datatype IPrecondition = PExists bool | PUpdateTime ITimestamp

record IWrite =
  writeUpdate :: "jsval option"
  writeDelete :: "string option"
  updateMask :: "FieldPath list option"
  updateTransforms :: "jsval option"
  currentDocument :: "IPrecondition option"

record WriteOp =
  opWrite :: IWrite
  precondition :: "IPrecondition option"

record IBatchWriteRequest =
  database :: string
  writes :: "IWrite list"

record ICommitRequest = IBatchWriteRequest +
  transaction :: "bytes option"

record IWriteResult =
  updateTime :: "ITimestamp option"

record IStatus =
  statusCode :: "int option"
  statusMessage :: "string option"

record BatchWriteResponse =
  batchWriteResults :: "IWriteResult list option"
  batchStatus :: "IStatus list"

text \<open>
  The commit response: the source reads \<^verbatim>\<open>response.commitTime!\<close>, so the commit time is
  taken to be present, as the non-null assertion says.
\<close>

record CommitResponse =
  writeResults :: "IWriteResult list option"
  commitTime :: ITimestamp

record GoogleError =
  message :: string
  code :: "int option"

definition OK :: int where
  "OK = 0"

section \<open>Results\<close>

datatype WriteResult = WriteResult Timestamp

record BatchWriteResult =
  writeTime :: "Timestamp option"
  status :: GoogleError

datatype 'a Deferred = Unresolved | Resolved 'a

datatype 'a Promise = Pending | Fulfilled 'a | Rejected GoogleError

fun resolve :: "'a Deferred \<Rightarrow> 'a \<Rightarrow> 'a Deferred" where
  "resolve Unresolved r = Resolved r"
| "resolve (Resolved r') r = Resolved r'"

section \<open>Errors thrown synchronously or delivered by a rejected call\<close>

datatype Error =
    CommittedError
  | SameDocumentAssertion
  | BatchNotOpenAssertion
  | InputNotObject
  | ExistsNotAllowed
  | ExistsNotBoolean
  | LastUpdateTimeNotTimestamp
  | MoreThanOnePrecondition
  | ArgumentError Error
  | FieldSpecifiedMultipleTimes FieldPath
  | NotPlainObject
  | AtLeastOneField
  | SetOptionsNotObject
  | MergeNotBoolean
  | MergeFieldsNotArray
  | MergeFieldsInvalid
  | MergeAndMergeFields
  | InvalidDocumentReference
  | InvalidFieldPath
  | InvalidUserInput
  | InvalidTransform
  | MissingMaskedField
  | TooFewArguments
  | TooManyArguments
  | ClosedError
  | TypeError
  | RpcError GoogleError

section \<open>Preconditions\<close>

text \<open>\<^verbatim>\<open>validatePrecondition\<close>, \<^verbatim>\<open>validateUpdatePrecondition\<close> and
  \<^verbatim>\<open>validateDeletePrecondition\<close>; \<open>None\<close> when the validator returns.\<close>

fun isBool :: "jsval \<Rightarrow> bool" where
  "isBool (JBool b) = True"
| "isBool v = False"

fun isTimestamp :: "jsval \<Rightarrow> bool" where
  "isTimestamp (JTimestamp t) = True"
| "isTimestamp v = False"

definition validatePrecondition :: "jsval \<Rightarrow> bool \<Rightarrow> Error option" where
  "validatePrecondition v allowExists =
     (if \<not> typeofObject v \<or> v = JNull then Some InputNotObject
      else if getProp v ''exists'' \<noteq> JUndefined \<and> \<not> allowExists then Some ExistsNotAllowed
      else if getProp v ''exists'' \<noteq> JUndefined \<and> \<not> isBool (getProp v ''exists'')
        then Some ExistsNotBoolean
      else if getProp v ''lastUpdateTime'' \<noteq> JUndefined
          \<and> \<not> isTimestamp (getProp v ''lastUpdateTime'')
        then Some LastUpdateTimeNotTimestamp
      else if getProp v ''exists'' \<noteq> JUndefined \<and> getProp v ''lastUpdateTime'' \<noteq> JUndefined
        then Some MoreThanOnePrecondition
      else None)"

definition validateUpdatePrecondition :: "jsval \<Rightarrow> Error option" where
  "validateUpdatePrecondition v =
     (if \<not> validateOptional v False then validatePrecondition v False else None)"

definition validateDeletePrecondition :: "jsval \<Rightarrow> Error option" where
  "validateDeletePrecondition v =
     (if \<not> validateOptional v True then validatePrecondition v True else None)"

text \<open>
  Modelled from the spec: the class \<^verbatim>\<open>Precondition\<close> (\<^verbatim>\<open>document.ts\<close>) is not among the
  sources. The spec describes it as the builder from user input to the wire form, which
  holds \<^verbatim>\<open>exists\<close> or else \<^verbatim>\<open>lastUpdateTime\<close>, and describes the precondition of a
  payload as optional: a precondition object that names neither condition has no wire
  form.
\<close>

record Precondition =
  pExists :: "bool option"
  pLastUpdateTime :: "Timestamp option"

definition newPrecondition :: "jsval \<Rightarrow> Precondition" where
  "newPrecondition options =
     \<lparr> pExists = (case getProp options ''exists'' of JBool b \<Rightarrow> Some b | _ \<Rightarrow> None),
       pLastUpdateTime =
         (case getProp options ''lastUpdateTime'' of JTimestamp t \<Rightarrow> Some t | _ \<Rightarrow> None) \<rparr>"

definition preconditionToProto :: "Precondition \<Rightarrow> IPrecondition option" where
  "preconditionToProto p =
     (case pLastUpdateTime p of
        Some t \<Rightarrow> Some (PUpdateTime (timestampToProto t))
      | None \<Rightarrow> (case pExists p of Some b \<Rightarrow> Some (PExists b) | None \<Rightarrow> None))"

section \<open>Collaborators that are not among the sources\<close>

text \<open>
  The builder calls validators and serialisers of other modules (\<^verbatim>\<open>reference.ts\<close>,
  \<^verbatim>\<open>serializer.ts\<close>, \<^verbatim>\<open>path.ts\<close>, \<^verbatim>\<open>document.ts\<close>). They are parameters of the model:
  a validator is the predicate of the values on which it returns without throwing, a
  serialiser is the function it computes.
\<close>

record DocumentReference =
  path :: string
  formattedName :: string

datatype AllowDeletes = AllowAll | AllowNone | AllowRoot

text \<open>
  A \<^verbatim>\<open>DocumentTransform\<close> as the builder reads it: \<^verbatim>\<open>isEmpty\<close>, \<^verbatim>\<open>fields\<close>, whether
  \<^verbatim>\<open>validate()\<close> returns, and the field transforms it holds, which only
  \<^verbatim>\<open>toProto(serializer)\<close> reads.
\<close>

record DocumentTransform =
  transformIsEmpty :: bool
  transformFields :: "FieldPath list"
  transformValid :: bool
  transformData :: jsval

text \<open>
  Modelled from the spec: the class \<^verbatim>\<open>DocumentMask\<close> (\<^verbatim>\<open>document.ts\<close>) is not among the
  sources. An update mask is the collection of field paths the server replaces.
\<close>

type_synonym DocumentMask = "FieldPath list"

definition removeFields :: "DocumentMask \<Rightarrow> FieldPath list \<Rightarrow> DocumentMask" where
  "removeFields m fs = filter (\<lambda>f. f \<notin> set fs) m"

record Collab =
  validDocumentReference :: "DocumentReference \<Rightarrow> bool"
  toFirestore :: "DocumentReference \<Rightarrow> jsval \<Rightarrow> jsval"
  validUserInput :: "jsval \<Rightarrow> AllowDeletes \<Rightarrow> bool"
  validFieldPath :: "jsval \<Rightarrow> bool"
  transformFromObject :: "DocumentReference \<Rightarrow> jsval \<Rightarrow> DocumentTransform"
  transformFromUpdateMap :: "DocumentReference \<Rightarrow> UpdateMap \<Rightarrow> DocumentTransform"
  maskFromFieldMask :: "jsval list \<Rightarrow> DocumentMask"
  maskFromObject :: "jsval \<Rightarrow> DocumentMask"
  maskFromUpdateMap :: "UpdateMap \<Rightarrow> DocumentMask"
  maskApplyTo :: "DocumentMask \<Rightarrow> jsval \<Rightarrow> jsval option"
  snapshotFromObject :: "DocumentReference \<Rightarrow> jsval \<Rightarrow> IWrite"
  snapshotFromUpdateMap :: "DocumentReference \<Rightarrow> UpdateMap \<Rightarrow> IWrite"
  transformToProto :: "DocumentTransform \<Rightarrow> jsval"

section \<open>Validation of user data\<close>

text \<open>\<^verbatim>\<open>validateFieldValue\<close>, \<^verbatim>\<open>validateDocumentData\<close>, \<^verbatim>\<open>validateUpdateMap\<close>,
  \<^verbatim>\<open>validateSetOptions\<close> and \<^verbatim>\<open>validateNoConflictingFields\<close>.\<close>

definition validateFieldValue :: "Collab \<Rightarrow> jsval \<Rightarrow> Error option" where
  "validateFieldValue C v = (if validUserInput C v AllowRoot then None else Some InvalidUserInput)"

definition validateDocumentData :: "Collab \<Rightarrow> jsval \<Rightarrow> bool \<Rightarrow> Error option" where
  "validateDocumentData C obj allowDeletes =
     (if \<not> isPlainObject obj then Some NotPlainObject
      else if list_all (\<lambda>k. validUserInput C (getProp obj k)
                 (if allowDeletes then AllowAll else AllowNone)) (keys obj)
        then None
      else Some InvalidUserInput)"

definition validateUpdateMap :: "Collab \<Rightarrow> jsval \<Rightarrow> Error option" where
  "validateUpdateMap C obj =
     (if \<not> isPlainObject obj then Some NotPlainObject
      else if \<not> list_all (\<lambda>k. validateFieldValue C (getProp obj k) = None) (keys obj)
        then Some InvalidUserInput
      else if keys obj = [] then Some AtLeastOneField
      else None)"

definition validateSetOptions :: "Collab \<Rightarrow> jsval \<Rightarrow> Error option" where
  "validateSetOptions C v =
     (if validateOptional v True then None
      else if \<not> isObject v then Some SetOptionsNotObject
      else if hasProp v ''merge'' \<and> \<not> isBool (getProp v ''merge'') then Some MergeNotBoolean
      else if hasProp v ''mergeFields'' \<and>
          (case getProp v ''mergeFields'' of JArr fs \<Rightarrow> False | _ \<Rightarrow> True)
        then Some MergeFieldsNotArray
      else if hasProp v ''mergeFields'' \<and>
          (case getProp v ''mergeFields'' of
             JArr fs \<Rightarrow> \<not> list_all (validFieldPath C) fs | _ \<Rightarrow> False)
        then Some MergeFieldsInvalid
      else if hasProp v ''merge'' \<and> hasProp v ''mergeFields'' then Some MergeAndMergeFields
      else None)"

text \<open>The loop over adjacent fields of the sorted array: the first field that is a
  prefix of its successor.\<close>

fun firstConflict :: "FieldPath list \<Rightarrow> FieldPath option" where
  "firstConflict (p # q # fs) = (if isPrefixOf p q then Some p else firstConflict (q # fs))"
| "firstConflict fs = None"

definition validateNoConflictingFields :: "UpdateMap \<Rightarrow> Error option" where
  "validateNoConflictingFields updateMap =
     (case firstConflict (sortBy compareTo (map (\<lambda>(k, v). snd k) updateMap)) of
        Some f \<Rightarrow> Some (FieldSpecifiedMultipleTimes f)
      | None \<Rightarrow> None)"

section \<open>The payload producers\<close>

text \<open>
  Each of \<^verbatim>\<open>create\<close>, \<^verbatim>\<open>delete\<close>, \<^verbatim>\<open>set\<close> and \<^verbatim>\<open>update\<close> pushes a closure
  \<^verbatim>\<open>() => WriteOp\<close> onto \<^verbatim>\<open>_ops\<close>. A closure is the record of the variables it
  captures; \<open>runThunk\<close> is its body. The body calls the serialisers
  (\<^verbatim>\<open>DocumentSnapshot.fromObject(...).toProto()\<close>, \<^verbatim>\<open>transform.toProto(...)\<close>,
  \<^verbatim>\<open>DocumentMask.fromObject\<close>) when it runs, so \<open>runThunk\<close> takes the collaborators
  of that moment, which need not be the ones the enqueueing call was given. The closure
  of \<^verbatim>\<open>set\<close> assigns the captured mask; removing the transformed fields twice gives
  the same mask, so the body is written as a function of the captured values.
\<close>

datatype WriteThunk =
    CreateThunk DocumentReference jsval DocumentTransform Precondition
  | DeleteThunk DocumentReference Precondition
  | SetThunk DocumentReference jsval DocumentTransform "DocumentMask option" bool
  | UpdateThunk DocumentReference UpdateMap DocumentTransform DocumentMask Precondition

definition withTransforms :: "Collab \<Rightarrow> DocumentTransform \<Rightarrow> IWrite \<Rightarrow> IWrite" where
  "withTransforms C transform w =
     (if \<not> transformIsEmpty transform
      then w\<lparr>updateTransforms := Some (transformToProto C transform)\<rparr> else w)"

fun runThunk :: "Collab \<Rightarrow> WriteThunk \<Rightarrow> WriteOp" where
  "runThunk C (CreateThunk documentRef firestoreData transform pre) =
     \<lparr> opWrite = withTransforms C transform (snapshotFromObject C documentRef firestoreData),
       precondition = preconditionToProto pre \<rparr>"
| "runThunk C (DeleteThunk documentRef conditions) =
     \<lparr> opWrite = \<lparr> writeUpdate = None, writeDelete = Some (formattedName documentRef),
                   updateMask = None, updateTransforms = None, currentDocument = None \<rparr>,
       precondition = preconditionToProto conditions \<rparr>"
| "runThunk C (SetThunk documentRef firestoreData transform mergePaths mergeLeaves) =
     (let documentMask =
            (case mergePaths of
               Some m \<Rightarrow> removeFields m (transformFields transform)
             | None \<Rightarrow> maskFromObject C firestoreData);
          w = withTransforms C transform (snapshotFromObject C documentRef firestoreData);
          hasMerge = (mergePaths \<noteq> None \<or> mergeLeaves)
      in \<lparr> opWrite = (if hasMerge \<and> documentMask \<noteq> []
                       then w\<lparr>updateMask := Some documentMask\<rparr> else w),
           precondition = None \<rparr>)"
| "runThunk C (UpdateThunk documentRef updateMap transform documentMask pre) =
     \<lparr> opWrite = withTransforms C transform
                   ((snapshotFromUpdateMap C documentRef updateMap)
                      \<lparr>updateMask := Some documentMask\<rparr>),
       precondition = preconditionToProto pre \<rparr>"

text \<open>The loop of \<^verbatim>\<open>bulkCommit\<close> and \<^verbatim>\<open>commit_\<close> over the produced payloads:
  \<^verbatim>\<open>if (req.precondition) req.write.currentDocument = req.precondition\<close>.\<close>

definition attachPrecondition :: "WriteOp \<Rightarrow> IWrite" where
  "attachPrecondition req =
     (case precondition req of
        Some p \<Rightarrow> (opWrite req)\<lparr>currentDocument := Some p\<rparr>
      | None \<Rightarrow> opWrite req)"

section \<open>The write batch\<close>

datatype BatchState = OPEN | READY_TO_SEND | SENT

text \<open>
  What the batch does to the outside world, in order: invoking the payload producer of
  the operation at an index of \<^verbatim>\<open>_ops\<close>, and issuing a request. The log is kept
  in the state of the model so that the order of these effects can be stated.
\<close>

datatype Event =
    ThunkCalled nat
  | BeginTransactionRpc string
  | CommitRpc ICommitRequest
  | BatchWriteRpc IBatchWriteRequest

text \<open>
  The fields of \<^verbatim>\<open>UpdateBuilder\<close>. \<^verbatim>\<open>docPaths\<close> is a \<^verbatim>\<open>Set\<close> and \<^verbatim>\<open>resultsMap\<close> a
  \<^verbatim>\<open>Map\<close>, both kept in insertion order; \<^verbatim>\<open>_ops\<close> and \<^verbatim>\<open>_committed\<close> are written
  without the underscore.
\<close>

record UpdateBuilder =
  state :: BatchState
  docPaths :: "string list"
  completedDeferred :: "unit Deferred"
  resultsMap :: "(nat \<times> BatchWriteResult Deferred) list"
  ops :: "WriteThunk list"
  committed :: bool
  maxBatchSize :: nat
  trace :: "Event list"

definition newUpdateBuilder :: "nat \<Rightarrow> UpdateBuilder" where
  "newUpdateBuilder n =
     \<lparr> state = OPEN, docPaths = [], completedDeferred = Unresolved, resultsMap = [],
       ops = [], committed = False, maxBatchSize = n, trace = [] \<rparr>"

definition opCount :: "UpdateBuilder \<Rightarrow> nat" where
  "opCount b = length (resultsMap b)"

definition isEmpty :: "UpdateBuilder \<Rightarrow> bool" where
  "isEmpty b = (ops b = [])"

definition verifyNotCommitted :: "UpdateBuilder \<Rightarrow> Error option" where
  "verifyNotCommitted b = (if committed b then Some CommittedError else None)"

text \<open>
  \<^verbatim>\<open>processOperation\<close>. A method returns the state it leaves behind together with
  either the error it throws or the key of the deferred result whose promise it
  returns.
\<close>

definition processOperation ::
  "UpdateBuilder \<Rightarrow> DocumentReference \<Rightarrow> UpdateBuilder \<times> (Error + nat)" where
  "processOperation b documentRef =
     (if path documentRef \<in> set (docPaths b) then (b, Inl SameDocumentAssertion)
      else if state b \<noteq> OPEN then (b, Inl BatchNotOpenAssertion)
      else
        (let b1 = b\<lparr>docPaths := setAdd (docPaths b) (path documentRef)\<rparr>;
             k = opCount b1;
             b2 = b1\<lparr>resultsMap := mapSet (resultsMap b1) k Unresolved\<rparr>;
             b3 = (if opCount b2 = maxBatchSize b2 then b2\<lparr>state := READY_TO_SEND\<rparr> else b2)
         in (b3, Inr k)))"

text \<open>The promise \<^verbatim>\<open>processOperation\<close> returns: \<^verbatim>\<open>deferred.promise.then(...)\<close>.\<close>

fun promiseOf :: "BatchWriteResult Deferred \<Rightarrow> WriteResult Promise" where
  "promiseOf Unresolved = Pending"
| "promiseOf (Resolved r) =
     (case writeTime r of
        Some t \<Rightarrow> Fulfilled (WriteResult t)
      | None \<Rightarrow> Rejected (status r))"

definition operationPromise :: "UpdateBuilder \<Rightarrow> nat \<Rightarrow> WriteResult Promise option" where
  "operationPromise b k = map_option promiseOf (map_of (resultsMap b) k)"

subsection \<open>create, delete, set, update\<close>

definition pushOp :: "UpdateBuilder \<Rightarrow> WriteThunk \<Rightarrow> UpdateBuilder" where
  "pushOp b thunk = b\<lparr>ops := ops b @ [thunk]\<rparr>"

definition create ::
  "Collab \<Rightarrow> UpdateBuilder \<Rightarrow> DocumentReference \<Rightarrow> jsval \<Rightarrow> UpdateBuilder \<times> (Error + nat)" where
  "create C b documentRef data =
     (if \<not> validDocumentReference C documentRef then (b, Inl InvalidDocumentReference)
      else let firestoreData = toFirestore C documentRef data in
        (case validateDocumentData C firestoreData False of
           Some e \<Rightarrow> (b, Inl e)
         | None \<Rightarrow>
        (case verifyNotCommitted b of
           Some e \<Rightarrow> (b, Inl e)
         | None \<Rightarrow>
        (let transform = transformFromObject C documentRef firestoreData in
         if \<not> transformValid transform then (b, Inl InvalidTransform)
         else processOperation
           (pushOp b (CreateThunk documentRef firestoreData transform
              (newPrecondition (JObj [(''exists'', JBool False)]))))
           documentRef))))"

definition delete ::
  "Collab \<Rightarrow> UpdateBuilder \<Rightarrow> DocumentReference \<Rightarrow> jsval \<Rightarrow> UpdateBuilder \<times> (Error + nat)" where
  "delete C b documentRef pre =
     (if \<not> validDocumentReference C documentRef then (b, Inl InvalidDocumentReference)
      else
        (case validateDeletePrecondition pre of
           Some e \<Rightarrow> (b, Inl e)
         | None \<Rightarrow>
        (case verifyNotCommitted b of
           Some e \<Rightarrow> (b, Inl e)
         | None \<Rightarrow>
           processOperation (pushOp b (DeleteThunk documentRef (newPrecondition pre)))
             documentRef)))"

fun truthy :: "jsval \<Rightarrow> bool" where
  "truthy JUndefined = False"
| "truthy JNull = False"
| "truthy (JBool b) = b"
| "truthy (JNum n) = (n \<noteq> 0)"
| "truthy (JStr s) = (s \<noteq> [])"
| "truthy v = True"

fun arrayItems :: "jsval \<Rightarrow> jsval list" where
  "arrayItems (JArr vs) = vs"
| "arrayItems v = []"

definition setFinish ::
  "Collab \<Rightarrow> UpdateBuilder \<Rightarrow> DocumentReference \<Rightarrow> bool \<Rightarrow> DocumentMask option \<Rightarrow> jsval
     \<Rightarrow> UpdateBuilder \<times> (Error + nat)" where
  "setFinish C b documentRef mergeLeaves documentMask firestoreData =
     (let transform = transformFromObject C documentRef firestoreData in
      if \<not> transformValid transform then (b, Inl InvalidTransform)
      else processOperation
        (pushOp b (SetThunk documentRef firestoreData transform documentMask mergeLeaves))
        documentRef)"

definition set_doc ::
  "Collab \<Rightarrow> UpdateBuilder \<Rightarrow> DocumentReference \<Rightarrow> jsval \<Rightarrow> jsval
     \<Rightarrow> UpdateBuilder \<times> (Error + nat)" where
  "set_doc C b documentRef data options =
     (case validateSetOptions C options of
        Some e \<Rightarrow> (b, Inl e)
      | None \<Rightarrow>
     (let mergeLeaves = (truthy options \<and> getProp options ''merge'' = JBool True);
          mergePaths = (if truthy options then getProp options ''mergeFields'' else options)
      in
      if \<not> validDocumentReference C documentRef then (b, Inl InvalidDocumentReference)
      else let firestoreData = toFirestore C documentRef data in
        (case validateDocumentData C firestoreData (truthy mergePaths \<or> mergeLeaves) of
           Some e \<Rightarrow> (b, Inl e)
         | None \<Rightarrow>
        (case verifyNotCommitted b of
           Some e \<Rightarrow> (b, Inl e)
         | None \<Rightarrow>
           if truthy mergePaths then
             (let documentMask = maskFromFieldMask C (arrayItems mergePaths) in
              case maskApplyTo C documentMask firestoreData of
                None \<Rightarrow> (b, Inl MissingMaskedField)
              | Some masked \<Rightarrow>
                  setFinish C b documentRef mergeLeaves (Some documentMask) masked)
           else setFinish C b documentRef mergeLeaves None firestoreData))))"

text \<open>
  The arguments of \<^verbatim>\<open>update\<close> after \<^verbatim>\<open>documentRef\<close> are the list \<open>args\<close>, so
  \<^verbatim>\<open>arguments[i]\<close> is \<open>args ! (i - 1)\<close> and \<^verbatim>\<open>arguments.length\<close> is
  \<open>length args + 1\<close>. Every error thrown while the arguments are read is caught and
  thrown again with the usage message in front.

  Modelled from the spec: \<^verbatim>\<open>validateMinNumberOfArguments\<close> and
  \<^verbatim>\<open>validateMaxNumberOfArguments\<close> (\<^verbatim>\<open>validate.ts\<close>) are not among the sources; they
  throw on too few or too many arguments.
\<close>

function varargsLoop ::
  "Collab \<Rightarrow> jsval list \<Rightarrow> nat \<Rightarrow> UpdateMap \<Rightarrow> Precondition
     \<Rightarrow> Error + (UpdateMap \<times> Precondition)" where
  "varargsLoop C args i m p =
     (if i < length args + 1 then
        (if i = length args then
           (case validateUpdatePrecondition (args ! (i - 1)) of
              Some e \<Rightarrow> Inl e
            | None \<Rightarrow> varargsLoop C args (i + 2) m (newPrecondition (args ! (i - 1))))
         else if \<not> validFieldPath C (args ! (i - 1)) then Inl InvalidFieldPath
         else if length args + 1 < i + 1 then Inl TooFewArguments
         else
           (case validateFieldValue C (args ! i) of
              Some e \<Rightarrow> Inl e
            | None \<Rightarrow>
                varargsLoop C args (i + 2)
                  (mapSet m (fromArgument i (args ! (i - 1))) (args ! i)) p))
      else Inr (m, p))"
  by pat_completeness auto
termination
  by (relation "measure (\<lambda>(C, args, i, m, p). length args + 1 - i)") auto

fun objectEntries :: "jsval \<Rightarrow> string list \<Rightarrow> nat \<Rightarrow> UpdateMap \<Rightarrow> UpdateMap" where
  "objectEntries data [] i m = m"
| "objectEntries data (k # ks) i m =
     objectEntries data ks (i + 1) (mapSet m (fromArgument i (JStr k)) (getProp data k))"

definition usesVarargs :: "jsval \<Rightarrow> bool" where
  "usesVarargs dataOrField =
     (case dataOrField of JStr s \<Rightarrow> True | JFieldPath i segs \<Rightarrow> True | _ \<Rightarrow> False)"

definition defaultUpdatePrecondition :: Precondition where
  "defaultUpdatePrecondition = newPrecondition (JObj [(''exists'', JBool True)])"

definition updateArguments ::
  "Collab \<Rightarrow> jsval list \<Rightarrow> Error + (UpdateMap \<times> Precondition)" where
  "updateArguments C args =
     (let dataOrField = args ! 0 in
      if usesVarargs dataOrField then varargsLoop C args 1 [] defaultUpdatePrecondition
      else
        (case validateUpdateMap C dataOrField of
           Some e \<Rightarrow> Inl e
         | None \<Rightarrow>
           if 3 < length args + 1 then Inl TooManyArguments
           else if \<not> list_all (\<lambda>k. validFieldPath C (JStr k)) (keys dataOrField)
             then Inl InvalidFieldPath
           else
             (let updateMap = objectEntries dataOrField (keys dataOrField) 0 [] in
              if 0 < length args - 1 then
                (case validateUpdatePrecondition (args ! 1) of
                   Some e \<Rightarrow> Inl e
                 | None \<Rightarrow> Inr (updateMap, newPrecondition (args ! 1)))
              else Inr (updateMap, defaultUpdatePrecondition))))"

definition update ::
  "Collab \<Rightarrow> UpdateBuilder \<Rightarrow> DocumentReference \<Rightarrow> jsval list
     \<Rightarrow> UpdateBuilder \<times> (Error + nat)" where
  "update C b documentRef args =
     (if length args + 1 < 2 then (b, Inl TooFewArguments)
      else if \<not> validDocumentReference C documentRef then (b, Inl InvalidDocumentReference)
      else
        (case verifyNotCommitted b of
           Some e \<Rightarrow> (b, Inl e)
         | None \<Rightarrow>
        (case updateArguments C args of
           Inl e \<Rightarrow> (b, Inl (ArgumentError e))
         | Inr (updateMap, pre) \<Rightarrow>
        (case validateNoConflictingFields updateMap of
           Some e \<Rightarrow> (b, Inl e)
         | None \<Rightarrow>
        (let transform = transformFromUpdateMap C documentRef updateMap in
         if \<not> transformValid transform then (b, Inl InvalidTransform)
         else processOperation
           (pushOp b (UpdateThunk documentRef updateMap transform
              (maskFromUpdateMap C updateMap) pre))
           documentRef)))))"

text \<open>\<^verbatim>\<open>_reset\<close> and \<^verbatim>\<open>markReadyToSend\<close>.\<close>

definition reset :: "UpdateBuilder \<Rightarrow> UpdateBuilder" where
  "reset b = b\<lparr>ops := [], committed := False\<rparr>"

definition markReadyToSend :: "UpdateBuilder \<Rightarrow> UpdateBuilder" where
  "markReadyToSend b = (if state b = OPEN then b\<lparr>state := READY_TO_SEND\<rparr> else b)"

section \<open>Committing\<close>

text \<open>
  The client \<^verbatim>\<open>this._firestore\<close> (\<^verbatim>\<open>index.ts\<close>, not among the sources) as the builder
  uses it: the two values \<^verbatim>\<open>_preferTransactions\<close> and \<^verbatim>\<open>_lastSuccessfulRequest\<close>, the
  database name, the clock read by \<^verbatim>\<open>new Date().getTime()\<close>, and the outcome of
  \<^verbatim>\<open>initializeIfNeeded\<close> and of each request: \<open>Inl\<close> when the returned promise
  rejects. The transaction of a \<^verbatim>\<open>beginTransaction\<close> response is read as
  \<^verbatim>\<open>resp.transaction!\<close> and is taken to be present.
\<close>

record Firestore =
  preferTransactions :: bool
  lastSuccessfulRequest :: "int option"
  databaseName :: string
  now :: int
  initializeIfNeeded :: "GoogleError option"
  beginTransaction :: "string \<Rightarrow> GoogleError + bytes"
  commit :: "ICommitRequest \<Rightarrow> GoogleError + CommitResponse"
  batchWrite :: "IBatchWriteRequest \<Rightarrow> GoogleError + BatchWriteResponse"

definition GCF_IDLE_TIMEOUT_MS :: int where
  "GCF_IDLE_TIMEOUT_MS = 110 * 1000"

text \<open>\<^verbatim>\<open>if (this._firestore._lastSuccessfulRequest)\<close> tests a number or
  \<^verbatim>\<open>undefined\<close> for truthiness: the number 0 fails the test as \<^verbatim>\<open>undefined\<close> does.\<close>

definition shouldCreateTransaction :: "Firestore \<Rightarrow> bool" where
  "shouldCreateTransaction F =
     (if \<not> preferTransactions F then False
      else
        (case lastSuccessfulRequest F of
           None \<Rightarrow> True
         | Some t \<Rightarrow> if t \<noteq> 0 then now F - t > GCF_IDLE_TIMEOUT_MS else True))"

text \<open>
  \<^verbatim>\<open>this._ops.map(op => op())\<close>: the producers are invoked one after the other in the
  order of \<^verbatim>\<open>_ops\<close>. Invoking the producer at index \<open>i\<close> logs the invocation and yields
  its payload; a payload exists only once its producer has been invoked.
\<close>

definition invokeOp :: "Collab \<Rightarrow> nat \<Rightarrow> WriteThunk \<Rightarrow> Event list \<Rightarrow> WriteOp \<times> Event list" where
  "invokeOp C i op tr = (runThunk C op, tr @ [ThunkCalled i])"

fun invokeOps ::
  "Collab \<Rightarrow> WriteThunk list \<Rightarrow> nat \<Rightarrow> Event list \<Rightarrow> WriteOp list \<times> Event list" where
  "invokeOps C [] i tr = ([], tr)"
| "invokeOps C (op # rest) i tr =
     (case invokeOp C i op tr of
        (req, tr1) \<Rightarrow>
          (case invokeOps C rest (i + 1) tr1 of
             (reqs, tr2) \<Rightarrow> (req # reqs, tr2)))"

text \<open>The loop over the payloads that attaches the preconditions and pushes the writes
  onto \<^verbatim>\<open>request.writes\<close>.\<close>

definition pushWrites :: "WriteOp list \<Rightarrow> IWrite list" where
  "pushWrites reqs = map attachPrecondition reqs"

text \<open>Both steps on a batch: the writes of the request and the batch with the
  invocations logged. \<open>serializeWrites\<close> names the writes.\<close>

definition buildWrites :: "Collab \<Rightarrow> UpdateBuilder \<Rightarrow> IWrite list \<times> UpdateBuilder" where
  "buildWrites C b =
     (case invokeOps C (ops b) 0 (trace b) of
        (reqs, tr) \<Rightarrow> (pushWrites reqs, b\<lparr>trace := tr\<rparr>))"

definition serializeWrites :: "Collab \<Rightarrow> UpdateBuilder \<Rightarrow> IWrite list" where
  "serializeWrites C b = fst (buildWrites C b)"

definition logEvent :: "UpdateBuilder \<Rightarrow> Event \<Rightarrow> UpdateBuilder" where
  "logEvent b e = b\<lparr>trace := trace b @ [e]\<rparr>"

text \<open>The results of \<^verbatim>\<open>bulkCommit\<close>: \<^verbatim>\<open>response.status[i]\<close> is \<^verbatim>\<open>undefined\<close> past the
  end of the array, and reading its \<^verbatim>\<open>message\<close> throws.\<close>

definition googleError :: "IStatus \<Rightarrow> GoogleError" where
  "googleError st =
     \<lparr> message = (case statusMessage st of None \<Rightarrow> [] | Some s \<Rightarrow> s),
       code = statusCode st \<rparr>"

definition batchWriteResult :: "IWriteResult \<Rightarrow> IStatus \<Rightarrow> BatchWriteResult" where
  "batchWriteResult result st =
     \<lparr> writeTime = map_option fromProto (updateTime result), status = googleError st \<rparr>"

fun batchResults :: "IWriteResult list \<Rightarrow> IStatus list \<Rightarrow> nat \<Rightarrow> Error + BatchWriteResult list" where
  "batchResults [] sts i = Inr []"
| "batchResults (r # rs) sts i =
     (if i < length sts then
        (case batchResults rs sts (i + 1) of
           Inl e \<Rightarrow> Inl e
         | Inr xs \<Rightarrow> Inr (batchWriteResult r (sts ! i) # xs))
      else Inl TypeError)"

definition orEmpty :: "'a list option \<Rightarrow> 'a list" where
  "orEmpty xs = (case xs of None \<Rightarrow> [] | Some ys \<Rightarrow> ys)"

definition bulkCommit ::
  "Collab \<Rightarrow> Firestore \<Rightarrow> UpdateBuilder \<Rightarrow> UpdateBuilder \<times> (Error + BatchWriteResult list)" where
  "bulkCommit C F b =
     (let b1 = b\<lparr>committed := True\<rparr> in
      case initializeIfNeeded F of
        Some e \<Rightarrow> (b1, Inl (RpcError e))
      | None \<Rightarrow>
        (case buildWrites C b1 of
           (ws, b1') \<Rightarrow>
             (let request = \<lparr> database = databaseName F, writes = ws \<rparr>;
                  b2 = logEvent b1' (BatchWriteRpc request)
              in case batchWrite F request of
                   Inl e \<Rightarrow> (b2, Inl (RpcError e))
                 | Inr response \<Rightarrow>
                     (b2, batchResults (orEmpty (batchWriteResults response))
                            (batchStatus response) 0))))"

definition commitResults :: "CommitResponse \<Rightarrow> WriteResult list" where
  "commitResults response =
     map (\<lambda>writeResult. WriteResult (fromProto
            (case updateTime writeResult of Some t \<Rightarrow> t | None \<Rightarrow> commitTime response)))
       (orEmpty (writeResults response))"

function commit' ::
  "Collab \<Rightarrow> Firestore \<Rightarrow> UpdateBuilder \<Rightarrow> bytes option
     \<Rightarrow> UpdateBuilder \<times> (Error + WriteResult list)" where
  "commit' C F b transactionId =
     (let b1 = b\<lparr>committed := True\<rparr> in
      case initializeIfNeeded F of
        Some e \<Rightarrow> (b1, Inl (RpcError e))
      | None \<Rightarrow>
        if transactionId = None \<and> shouldCreateTransaction F then
          (let b2 = logEvent b1 (BeginTransactionRpc (databaseName F)) in
           case beginTransaction F (databaseName F) of
             Inl e \<Rightarrow> (b2, Inl (RpcError e))
           | Inr tx \<Rightarrow> commit' C F b2 (Some tx))
        else
          (case buildWrites C b1 of
             (ws, b1') \<Rightarrow>
               (let request = \<lparr> database = databaseName F, writes = ws,
                                transaction = transactionId \<rparr>;
                    b2 = logEvent b1' (CommitRpc request)
                in case commit F request of
                     Inl e \<Rightarrow> (b2, Inl (RpcError e))
                   | Inr response \<Rightarrow> (b2, Inr (commitResults response)))))"
  by pat_completeness auto
termination
  by (relation "measure (\<lambda>(C, F, b, t). if t = None then 1 else 0)") auto

text \<open>\<^verbatim>\<open>processResults\<close>: \<^verbatim>\<open>this.resultsMap.get(index)!.resolve(result)\<close> for each
  result in turn; a missing entry throws, after the earlier results were delivered.\<close>

fun resolveAll ::
  "(nat \<times> BatchWriteResult Deferred) list \<Rightarrow> BatchWriteResult list \<Rightarrow> nat
     \<Rightarrow> (nat \<times> BatchWriteResult Deferred) list \<times> Error option" where
  "resolveAll m [] i = (m, None)"
| "resolveAll m (r # rs) i =
     (case map_of m i of
        None \<Rightarrow> (m, Some TypeError)
      | Some d \<Rightarrow> resolveAll (mapSet m i (resolve d r)) rs (i + 1))"

definition processResults ::
  "UpdateBuilder \<Rightarrow> BatchWriteResult list \<Rightarrow> UpdateBuilder \<times> Error option" where
  "processResults b results =
     (case resolveAll (resultsMap b) results 0 of
        (m, Some e) \<Rightarrow> (b\<lparr>resultsMap := m\<rparr>, Some e)
      | (m, None) \<Rightarrow>
          (b\<lparr>resultsMap := m, completedDeferred := resolve (completedDeferred b) ()\<rparr>, None))"

text \<open>The requests among logged events.\<close>

fun isRpc :: "Event \<Rightarrow> bool" where
  "isRpc (ThunkCalled i) = False"
| "isRpc e = True"

definition newEvents :: "UpdateBuilder \<Rightarrow> UpdateBuilder \<Rightarrow> Event list" where
  "newEvents b b' = drop (length (trace b)) (trace b')"

section \<open>The four enqueueing methods as one call\<close>

datatype Call =
    CallCreate DocumentReference jsval
  | CallDelete DocumentReference jsval
  | CallSet DocumentReference jsval jsval
  | CallUpdate DocumentReference "jsval list"

fun callRef :: "Call \<Rightarrow> DocumentReference" where
  "callRef (CallCreate documentRef data) = documentRef"
| "callRef (CallDelete documentRef pre) = documentRef"
| "callRef (CallSet documentRef data options) = documentRef"
| "callRef (CallUpdate documentRef args) = documentRef"

fun applyCall :: "Collab \<Rightarrow> UpdateBuilder \<Rightarrow> Call \<Rightarrow> UpdateBuilder \<times> (Error + nat)" where
  "applyCall C b (CallCreate documentRef data) = create C b documentRef data"
| "applyCall C b (CallDelete documentRef pre) = delete C b documentRef pre"
| "applyCall C b (CallSet documentRef data options) = set_doc C b documentRef data options"
| "applyCall C b (CallUpdate documentRef args) = update C b documentRef args"

text \<open>
  A caller's calls in turn, on the collaborators of the time: the batch they leave and
  what each call returned or threw. \<open>returned\<close> keeps the calls that returned a
  promise.
\<close>

fun applyCalls ::
  "Collab \<Rightarrow> UpdateBuilder \<Rightarrow> Call list \<Rightarrow> UpdateBuilder \<times> (Error + nat) list" where
  "applyCalls C b [] = (b, [])"
| "applyCalls C b (c # cs) =
     (case applyCall C b c of
        (b1, r) \<Rightarrow> (case applyCalls C b1 cs of (b2, rs) \<Rightarrow> (b2, r # rs)))"

fun returned :: "Call list \<Rightarrow> (Error + nat) list \<Rightarrow> Call list" where
  "returned (c # cs) (Inr k # rs) = c # returned cs rs"
| "returned (c # cs) (Inl e # rs) = returned cs rs"
| "returned cs rs = []"

text \<open>
  The write of a call, read off its arguments: the write message that the body of the
  call's closure builds from the values the call captured, with the precondition of the
  payload as \<^verbatim>\<open>currentDocument\<close>. \<open>Ce\<close> are the collaborators in force when the call
  is made (converter, \<^verbatim>\<open>DocumentTransform.fromObject\<close>, \<^verbatim>\<open>DocumentMask.fromFieldMask\<close>,
  \<^verbatim>\<open>applyTo\<close>, \<^verbatim>\<open>DocumentMask.fromUpdateMap\<close>), \<open>Cs\<close> the ones in force when the
  closure runs (\<^verbatim>\<open>DocumentSnapshot.fromObject(...).toProto()\<close>, \<^verbatim>\<open>transform.toProto\<close>,
  \<^verbatim>\<open>DocumentMask.fromObject\<close>). It is meant for a call that returns: a call whose
  arguments are refused pushes no closure, and the branches for refused arguments only
  make the function total.
\<close>

definition transformsOf :: "Collab \<Rightarrow> DocumentTransform \<Rightarrow> IWrite \<Rightarrow> jsval option" where
  "transformsOf Cs transform write =
     (if transformIsEmpty transform then updateTransforms write
      else Some (transformToProto Cs transform))"

fun wireForm :: "Collab \<Rightarrow> Collab \<Rightarrow> Call \<Rightarrow> IWrite" where
  "wireForm Ce Cs (CallCreate documentRef data) =
     (let firestoreData = toFirestore Ce documentRef data;
          transform = transformFromObject Ce documentRef firestoreData;
          write = snapshotFromObject Cs documentRef firestoreData
      in write\<lparr> updateTransforms := transformsOf Cs transform write,
                 currentDocument := Some (PExists False) \<rparr>)"
| "wireForm Ce Cs (CallDelete documentRef pre) =
     \<lparr> writeUpdate = None, writeDelete = Some (formattedName documentRef),
       updateMask = None, updateTransforms = None,
       currentDocument = preconditionToProto (newPrecondition pre) \<rparr>"
| "wireForm Ce Cs (CallSet documentRef data options) =
     (let mergeLeaves = (truthy options \<and> getProp options ''merge'' = JBool True);
          mergePaths = (if truthy options then getProp options ''mergeFields'' else options);
          fieldMask = maskFromFieldMask Ce (arrayItems mergePaths);
          firestoreData =
            (if truthy mergePaths
             then (case maskApplyTo Ce fieldMask (toFirestore Ce documentRef data) of
                     Some masked \<Rightarrow> masked
                   | None \<Rightarrow> toFirestore Ce documentRef data)
             else toFirestore Ce documentRef data);
          transform = transformFromObject Ce documentRef firestoreData;
          documentMask =
            (if truthy mergePaths then removeFields fieldMask (transformFields transform)
             else maskFromObject Cs firestoreData);
          write = snapshotFromObject Cs documentRef firestoreData
      in write\<lparr> updateTransforms := transformsOf Cs transform write,
                 updateMask :=
                   (if (truthy mergePaths \<or> mergeLeaves) \<and> documentMask \<noteq> []
                    then Some documentMask else updateMask write) \<rparr>)"
| "wireForm Ce Cs (CallUpdate documentRef args) =
     (case updateArguments Ce args of
        Inr (updateMap, pre) \<Rightarrow>
          (let transform = transformFromUpdateMap Ce documentRef updateMap;
               write = snapshotFromUpdateMap Cs documentRef updateMap
           in write\<lparr> updateMask := Some (maskFromUpdateMap Ce updateMap),
                      updateTransforms := transformsOf Cs transform write,
                      currentDocument :=
                        (case preconditionToProto pre of
                           Some p \<Rightarrow> Some p
                         | None \<Rightarrow> currentDocument write) \<rparr>)
      | Inl e \<Rightarrow> snapshotFromUpdateMap Cs documentRef [])"
section \<open>The bulk writer\<close>

text \<open>
  Modelled from the spec: the class \<^verbatim>\<open>BulkWriter\<close> (\<^verbatim>\<open>bulk-writer.ts\<close>) is not among
  the sources; only its test is. The definitions follow the enqueue algorithm and the
  dispatcher of the spec. The queue holds the batches not yet sent, the last of which
  may be open; a batch that is sent leaves the queue and is in flight until its request
  completes. A batch at the head of the queue is blocked while one of its documents is in
  a batch in flight. Each batch is a write batch of the source, and an operation is
  appended to it by calling its method.
\<close>

record BulkWriter =
  batchQueue :: "UpdateBuilder list"
  inFlightBatches :: "UpdateBuilder list"
  closed :: bool
  maxConcurrentBatches :: nat
  writerMaxBatchSize :: nat
  sentRequests :: "IBatchWriteRequest list"

definition newBulkWriter :: "nat \<Rightarrow> nat \<Rightarrow> BulkWriter" where
  "newBulkWriter batchSize concurrent =
     \<lparr> batchQueue = [], inFlightBatches = [], closed = False,
       maxConcurrentBatches = concurrent, writerMaxBatchSize = batchSize, sentRequests = [] \<rparr>"

definition blocked :: "BulkWriter \<Rightarrow> UpdateBuilder \<Rightarrow> bool" where
  "blocked W b =
     list_ex (\<lambda>d. list_ex (\<lambda>f. d \<in> set (docPaths f)) (inFlightBatches W)) (docPaths b)"

text \<open>The dispatcher: while there is room in flight and the batch at the head of the
  queue is ready to send and not blocked, pop it and send it.\<close>

function dispatch :: "Collab \<Rightarrow> Firestore \<Rightarrow> BulkWriter \<Rightarrow> BulkWriter" where
  "dispatch C F W =
     (case batchQueue W of
        [] \<Rightarrow> W
      | b # rest \<Rightarrow>
          if length (inFlightBatches W) < maxConcurrentBatches W
             \<and> state b = READY_TO_SEND \<and> \<not> blocked W b
          then dispatch C F
            (W\<lparr> batchQueue := rest,
                inFlightBatches := inFlightBatches W @ [b\<lparr>state := SENT\<rparr>],
                sentRequests := sentRequests W @
                  [\<lparr> database = databaseName F, writes = serializeWrites C b \<rparr>] \<rparr>)
          else W)"
  by pat_completeness auto
termination
  by (relation "measure (\<lambda>(C, F, W). length (batchQueue W))") auto

text \<open>Steps 1 to 5 of the enqueue algorithm; step 6 kicks the dispatcher.\<close>

definition currentBatches :: "BulkWriter \<Rightarrow> UpdateBuilder list" where
  "currentBatches W =
     (if batchQueue W = [] \<or> state (last (batchQueue W)) \<noteq> OPEN
      then batchQueue W @ [newUpdateBuilder (writerMaxBatchSize W)]
      else batchQueue W)"

definition splitOnSameDocument :: "BulkWriter \<Rightarrow> string \<Rightarrow> UpdateBuilder list \<Rightarrow> UpdateBuilder list" where
  "splitOnSameDocument W documentPath q =
     (if documentPath \<in> set (docPaths (last q))
      then butlast q @ [markReadyToSend (last q), newUpdateBuilder (writerMaxBatchSize W)]
      else q)"

definition enqueueStep ::
  "Collab \<Rightarrow> BulkWriter \<Rightarrow> Call \<Rightarrow> BulkWriter \<times> (Error + nat)" where
  "enqueueStep C W c =
     (if closed W then (W, Inl ClosedError)
      else
        (let q = splitOnSameDocument W (path (callRef c)) (currentBatches W)
         in case applyCall C (last q) c of
              (b, Inl e) \<Rightarrow> (W, Inl e)
            | (b, Inr k) \<Rightarrow> (W\<lparr>batchQueue := butlast q @ [b]\<rparr>, Inr k)))"

definition enqueue ::
  "Collab \<Rightarrow> Firestore \<Rightarrow> BulkWriter \<Rightarrow> Call \<Rightarrow> BulkWriter \<times> (Error + nat)" where
  "enqueue C F W c =
     (case enqueueStep C W c of (W', r) \<Rightarrow> (dispatch C F W', r))"

definition flush :: "Collab \<Rightarrow> Firestore \<Rightarrow> BulkWriter \<Rightarrow> BulkWriter" where
  "flush C F W = dispatch C F (W\<lparr>batchQueue := map markReadyToSend (batchQueue W)\<rparr>)"

definition close :: "Collab \<Rightarrow> Firestore \<Rightarrow> BulkWriter \<Rightarrow> BulkWriter" where
  "close C F W = (flush C F W)\<lparr>closed := True\<rparr>"

text \<open>The request of the oldest batch in flight completes: the batch leaves the
  batches in flight and the dispatcher is kicked again.\<close>

definition complete :: "Collab \<Rightarrow> Firestore \<Rightarrow> BulkWriter \<Rightarrow> BulkWriter" where
  "complete C F W = dispatch C F (W\<lparr>inFlightBatches := tl (inFlightBatches W)\<rparr>)"

section \<open>Fixtures\<close>

text \<open>
  Concrete collaborators, documents and responses in the style of
  \<^verbatim>\<open>dev/test/bulk-writer.ts\<close>, on which the theorems are exercised: validators that
  accept their input, no transforms, and a document proto that records the name and the
  data.
\<close>

definition testDoc :: "string \<Rightarrow> DocumentReference" where
  "testDoc name =
     \<lparr> path = ''collectionId/'' @ name,
       formattedName =
         ''projects/test-project/databases/(default)/documents/collectionId/'' @ name \<rparr>"

definition noTransform :: DocumentTransform where
  "noTransform =
     \<lparr> transformIsEmpty = True, transformFields = [], transformValid = True,
       transformData = JNull \<rparr>"

definition testWrite :: "DocumentReference \<Rightarrow> jsval \<Rightarrow> IWrite" where
  "testWrite documentRef d =
     \<lparr> writeUpdate = Some (JObj [(''name'', JStr (formattedName documentRef)),
                                  (''fields'', d)]),
       writeDelete = None, updateMask = None, updateTransforms = None,
       currentDocument = None \<rparr>"

definition updateMapObject :: "UpdateMap \<Rightarrow> jsval" where
  "updateMapObject m = JArr (map (\<lambda>(k, v). JArr [JFieldPath 0 (snd k), v]) m)"

definition testCollab :: Collab where
  "testCollab =
     \<lparr> validDocumentReference = (\<lambda>r. True),
       toFirestore = (\<lambda>r d. d),
       validUserInput = (\<lambda>v a. True),
       validFieldPath = (\<lambda>v. True),
       transformFromObject = (\<lambda>r d. noTransform),
       transformFromUpdateMap = (\<lambda>r m. noTransform),
       maskFromFieldMask = (\<lambda>fs. []),
       maskFromObject = (\<lambda>d. []),
       maskFromUpdateMap = (\<lambda>m. map (\<lambda>(k, v). snd k) m),
       maskApplyTo = (\<lambda>m d. Some d),
       snapshotFromObject = testWrite,
       snapshotFromUpdateMap = (\<lambda>r m. testWrite r (updateMapObject m)),
       transformToProto = transformData \<rparr>"

definition respondWith :: "'b \<Rightarrow> 'a \<Rightarrow> GoogleError + 'b" where
  "respondWith response request = Inr response"

definition failWith :: "GoogleError \<Rightarrow> 'a \<Rightarrow> GoogleError + 'b" where
  "failWith e request = Inl e"

definition unavailable :: GoogleError where
  "unavailable = \<lparr> message = ''unavailable'', code = Some 14 \<rparr>"

definition testFirestore :: "bool \<Rightarrow> int option \<Rightarrow> int \<Rightarrow> Firestore" where
  "testFirestore prefer lastRequest clock =
     \<lparr> preferTransactions = prefer,
       lastSuccessfulRequest = lastRequest,
       databaseName = ''projects/test-project/databases/(default)'',
       now = clock,
       initializeIfNeeded = None,
       beginTransaction = respondWith [116, 120],
       commit = respondWith \<lparr> writeResults = Some [\<lparr> updateTime = None \<rparr>],
                              commitTime = (5, 0) \<rparr>,
       batchWrite = respondWith
         \<lparr> batchWriteResults = Some [\<lparr> updateTime = Some (2, 0) \<rparr>],
           batchStatus = [\<lparr> statusCode = Some 0, statusMessage = None \<rparr>] \<rparr> \<rparr>"

definition fooBar :: jsval where
  "fooBar = JObj [(''foo'', JStr ''bar'')]"

definition bulkFirestore :: "BatchWriteResponse \<Rightarrow> Firestore" where
  "bulkFirestore response = (testFirestore False None 0)\<lparr>batchWrite := respondWith response\<rparr>"

definition failingCommit :: Firestore where
  "failingCommit = (testFirestore False None 0)\<lparr>commit := failWith unavailable\<rparr>"

definition mixedResponse :: BatchWriteResponse where
  "mixedResponse =
     \<lparr> batchWriteResults = Some [\<lparr> updateTime = Some (2, 0) \<rparr>, \<lparr> updateTime = None \<rparr>],
       batchStatus = [\<lparr> statusCode = Some 0, statusMessage = None \<rparr>,
                      \<lparr> statusCode = Some 14, statusMessage = Some ''unavailable'' \<rparr>] \<rparr>"

definition twoSets :: UpdateBuilder where
  "twoSets =
     fst (set_doc testCollab
       (fst (set_doc testCollab (newUpdateBuilder 500) (testDoc ''doc1'') fooBar JUndefined))
       (testDoc ''doc2'') fooBar JUndefined)"

definition oneCreate :: UpdateBuilder where
  "oneCreate = fst (create testCollab (newUpdateBuilder 500) (testDoc ''doc'') fooBar)"

text \<open>The two writes of the test \<^verbatim>\<open>sends writes to the same document in separate
  batches\<close>, and the batch that holds one call alone.\<close>

definition setDoc :: Call where
  "setDoc = CallSet (testDoc ''doc'') fooBar JUndefined"

definition updateDoc :: Call where
  "updateDoc = CallUpdate (testDoc ''doc'') [JObj [(''foo'', JStr ''bar1'')]]"

definition batchOf :: "Call \<Rightarrow> UpdateBuilder" where
  "batchOf c = fst (applyCall testCollab (newUpdateBuilder 500) c)"

text \<open>
  Five calls on a new batch, the third of which passes a string as the document data
  and throws, and collaborators as they may be by the time the batch is committed: the
  snapshot is taken of a later state, marked in its fields, and the mask of a merging
  \<^verbatim>\<open>set\<close> lists the keys of the data.
\<close>

definition fiveCalls :: "Call list" where
  "fiveCalls =
     [CallCreate (testDoc ''doc1'') fooBar,
      CallDelete (testDoc ''doc2'') (JObj [(''exists'', JBool True)]),
      CallCreate (testDoc ''doc3'') (JStr ''bar''),
      CallSet (testDoc ''doc4'') fooBar (JObj [(''merge'', JBool True)]),
      CallUpdate (testDoc ''doc5'') [fooBar]]"

definition lateCollab :: Collab where
  "lateCollab =
     testCollab\<lparr> snapshotFromObject := (\<lambda>r d. testWrite r (JObj [(''late'', d)])),
                  snapshotFromUpdateMap :=
                    (\<lambda>r m. testWrite r (JObj [(''late'', updateMapObject m)])),
                  maskFromObject := (\<lambda>d. map (\<lambda>k. [k]) (keys d)) \<rparr>"

definition fiveCallsBatch :: UpdateBuilder where
  "fiveCallsBatch = fst (applyCalls testCollab (newUpdateBuilder 500) fiveCalls)"

text \<open>A new batch after one call of \<^verbatim>\<open>update\<close> on the test document with the
  arguments \<open>args\<close>.\<close>

definition updateWith :: "jsval list \<Rightarrow> UpdateBuilder" where
  "updateWith args = fst (update testCollab (newUpdateBuilder 500) (testDoc ''doc'') args)"

section \<open>Document paths and result slots\<close>

text \<open>
  The part of the bookkeeping of a batch that \<^verbatim>\<open>processOperation\<close> alone writes: the
  result slots are keyed \<open>0, 1, ...\<close> in order, there is one document path for each,
  and no path occurs twice.
\<close>

definition slotsAligned :: "UpdateBuilder \<Rightarrow> bool" where
  "slotsAligned b \<longleftrightarrow>
     map fst (resultsMap b) = [0..<length (resultsMap b)]
     \<and> length (docPaths b) = length (resultsMap b)
     \<and> distinct (docPaths b)"

section \<open>Outcomes of an enqueueing call\<close>

text \<open>
  A call either throws before it stores anything, with an error other than the two
  assertions of \<^verbatim>\<open>processOperation\<close>, or it pushes its payload producer onto
  \<^verbatim>\<open>_ops\<close> and hands over to \<^verbatim>\<open>processOperation\<close>.
\<close>

definition earlyFailure :: "UpdateBuilder \<Rightarrow> UpdateBuilder \<times> (Error + nat) \<Rightarrow> bool" where
  "earlyFailure b res \<longleftrightarrow>
     (\<exists>e. res = (b, Inl e) \<and> e \<noteq> SameDocumentAssertion \<and> e \<noteq> BatchNotOpenAssertion
        \<and> (e = CommittedError \<longrightarrow> committed b))"

definition pushed :: "UpdateBuilder \<Rightarrow> DocumentReference \<Rightarrow> UpdateBuilder \<times> (Error + nat) \<Rightarrow> bool" where
  "pushed b r res \<longleftrightarrow> \<not> committed b \<and> (\<exists>th. res = processOperation (pushOp b th) r)"

section \<open>Properties\<close>

subsection \<open>Invoking the payload producers\<close>

lemma invokeOps_eq:
  "invokeOps C os i tr = (map (runThunk C) os, tr @ map ThunkCalled [i..<i + length os])"
proof (induction os arbitrary: i tr)
  case Nil
  show ?case by simp
next
  case (Cons op rest)
  have "[i..<i + length (op # rest)] = i # [Suc i..<Suc i + length rest]"
    by (subst upt_rec) simp
  then show ?case
    by (simp add: Cons.IH invokeOp_def)
qed

lemma buildWrites_eq:
  "buildWrites C b =
     (map (\<lambda>thunk. attachPrecondition (runThunk C thunk)) (ops b),
      b\<lparr>trace := trace b @ map ThunkCalled [0..<length (ops b)]\<rparr>)"
  by (simp add: buildWrites_def invokeOps_eq pushWrites_def)

lemma serializeWrites_map:
  "serializeWrites C b = map (\<lambda>thunk. attachPrecondition (runThunk C thunk)) (ops b)"
  by (simp add: serializeWrites_def buildWrites_eq)

lemma buildWrites_snd:
  "snd (buildWrites C b) = b\<lparr>trace := trace b @ map ThunkCalled [0..<length (ops b)]\<rparr>"
  by (simp add: buildWrites_eq)

lemma bulkCommit_unfold:
  "bulkCommit C F b =
     (case initializeIfNeeded F of
        Some e \<Rightarrow> (b\<lparr>committed := True\<rparr>, Inl (RpcError e))
      | None \<Rightarrow>
          (logEvent (snd (buildWrites C (b\<lparr>committed := True\<rparr>)))
             (BatchWriteRpc \<lparr> database = databaseName F,
                writes = serializeWrites C (b\<lparr>committed := True\<rparr>) \<rparr>),
           case batchWrite F \<lparr> database = databaseName F,
                  writes = serializeWrites C (b\<lparr>committed := True\<rparr>) \<rparr> of
             Inl e \<Rightarrow> Inl (RpcError e)
           | Inr response \<Rightarrow>
               batchResults (orEmpty (batchWriteResults response)) (batchStatus response) 0))"
  by (simp add: bulkCommit_def serializeWrites_def split_beta Let_def
      split: option.splits sum.splits)

subsection \<open>Appending to a batch\<close>

lemma processOperation_failure:
  assumes "processOperation b r = (b', Inl e)"
  shows "b' = b"
    and "e = SameDocumentAssertion \<and> path r \<in> set (docPaths b)
       \<or> e = BatchNotOpenAssertion \<and> path r \<notin> set (docPaths b) \<and> state b \<noteq> OPEN"
  using assms by (auto simp: processOperation_def Let_def split: if_splits)

lemma processOperation_success:
  assumes "processOperation b r = (b', Inr k)"
  shows "path r \<notin> set (docPaths b)" and "state b = OPEN" and "k = opCount b"
    and "docPaths b' = docPaths b @ [path r]"
    and "resultsMap b' = mapSet (resultsMap b) (opCount b) Unresolved"
    and "ops b' = ops b" and "committed b' = committed b" and "trace b' = trace b"
    and "maxBatchSize b' = maxBatchSize b"
    and "completedDeferred b' = completedDeferred b"
  using assms
  by (auto simp: processOperation_def Let_def setAdd_def opCount_def split: if_splits)

lemma processOperation_fails_iff:
  "(\<exists>e. snd (processOperation b r) = Inl e) \<longleftrightarrow> path r \<in> set (docPaths b) \<or> state b \<noteq> OPEN"
  by (auto simp: processOperation_def Let_def)

lemma pushOp_simps [simp]:
  "ops (pushOp b th) = ops b @ [th]"
  "docPaths (pushOp b th) = docPaths b"
  "resultsMap (pushOp b th) = resultsMap b"
  "state (pushOp b th) = state b"
  "committed (pushOp b th) = committed b"
  "trace (pushOp b th) = trace b"
  "maxBatchSize (pushOp b th) = maxBatchSize b"
  "completedDeferred (pushOp b th) = completedDeferred b"
  "opCount (pushOp b th) = opCount b"
  by (simp_all add: pushOp_def opCount_def)

lemma create_shape: "earlyFailure b (create C b r d) \<or> pushed b r (create C b r d)"
  by (auto simp: create_def earlyFailure_def pushed_def validateDocumentData_def
      verifyNotCommitted_def Let_def split: option.splits if_splits)

lemma delete_shape: "earlyFailure b (delete C b r p) \<or> pushed b r (delete C b r p)"
  by (auto simp: delete_def earlyFailure_def pushed_def validateDeletePrecondition_def
      validatePrecondition_def verifyNotCommitted_def Let_def split: option.splits if_splits)

lemma setFinish_shape:
  "\<not> committed b \<Longrightarrow> earlyFailure b (setFinish C b r ml m d) \<or> pushed b r (setFinish C b r ml m d)"
  by (auto simp: setFinish_def earlyFailure_def pushed_def Let_def)

lemma validateSetOptions_errors:
  "validateSetOptions C v = Some e \<Longrightarrow>
     e \<in> {SetOptionsNotObject, MergeNotBoolean, MergeFieldsNotArray, MergeFieldsInvalid, MergeAndMergeFields}"
  by (simp add: validateSetOptions_def split: if_splits)

lemma validateDocumentData_errors:
  "validateDocumentData C v a = Some e \<Longrightarrow> e \<in> {NotPlainObject, InvalidUserInput}"
  by (simp add: validateDocumentData_def split: if_splits)

lemma set_shape: "earlyFailure b (set_doc C b r d opts) \<or> pushed b r (set_doc C b r d opts)"
proof (cases "validateSetOptions C opts")
  case (Some e)
  then show ?thesis
    using validateSetOptions_errors [OF Some]
    by (auto simp: set_doc_def earlyFailure_def)
next
  case None
  show ?thesis
  proof (cases "committed b")
    case True
    then show ?thesis
      using None
      by (auto simp: set_doc_def earlyFailure_def verifyNotCommitted_def Let_def
          dest: validateDocumentData_errors split: option.splits)
  next
    case False
    then show ?thesis
      using None setFinish_shape [OF False]
      by (auto simp: set_doc_def verifyNotCommitted_def Let_def earlyFailure_def
          dest: validateDocumentData_errors split: option.splits)
  qed
qed

lemma validateNoConflictingFields_errors:
  "validateNoConflictingFields m = Some e \<Longrightarrow> \<exists>f. e = FieldSpecifiedMultipleTimes f"
  by (auto simp: validateNoConflictingFields_def split: option.splits)

lemma update_shape: "earlyFailure b (update C b r args) \<or> pushed b r (update C b r args)"
  by (auto simp: update_def earlyFailure_def pushed_def verifyNotCommitted_def Let_def
      dest!: validateNoConflictingFields_errors split: option.splits sum.splits prod.splits)

lemma applyCall_shape:
  "earlyFailure b (applyCall C b c) \<or> pushed b (callRef c) (applyCall C b c)"
  by (cases c) (simp_all add: create_shape delete_shape set_shape update_shape)


lemma earlyFailure_fst: "earlyFailure b res \<Longrightarrow> fst res = b \<and> (\<exists>e. snd res = Inl e)"
  by (auto simp: earlyFailure_def)

subsection \<open>C5: appending to a batch that cannot take the operation\<close>

text \<open>
  Claim C5, as amended. A call of \<^verbatim>\<open>create\<close>, \<^verbatim>\<open>set\<close>, \<^verbatim>\<open>update\<close> or \<^verbatim>\<open>delete\<close>
  throws whenever the committed flag of the batch is set, its state is not \<open>OPEN\<close>, or
  the document path is already in \<^verbatim>\<open>docPaths\<close>. With the committed flag set the
  batch is left as it was. The already-committed error is thrown only when the flag is
  set; a duplicate path is reported by the assertion on \<^verbatim>\<open>docPaths\<close>, and a state
  other than \<open>OPEN\<close> (with a new path and the flag not set) by the assertion on the
  state. Every error other than the two assertions leaves the batch as it was, and in
  every failure \<^verbatim>\<open>docPaths\<close>, the result slots, the state and the committed flag are
  unchanged.
\<close>

theorem append_failure:
  "(committed b \<or> state b \<noteq> OPEN \<or> path (callRef c) \<in> set (docPaths b)
      \<longrightarrow> (\<exists>e. snd (applyCall C b c) = Inl e))
   \<and> (committed b \<longrightarrow> fst (applyCall C b c) = b)
   \<and> (snd (applyCall C b c) = Inl CommittedError \<longrightarrow> committed b)
   \<and> (snd (applyCall C b c) = Inl SameDocumentAssertion
        \<longrightarrow> \<not> committed b \<and> path (callRef c) \<in> set (docPaths b))
   \<and> (snd (applyCall C b c) = Inl BatchNotOpenAssertion
        \<longrightarrow> \<not> committed b \<and> path (callRef c) \<notin> set (docPaths b) \<and> state b \<noteq> OPEN)
   \<and> ((\<exists>e. snd (applyCall C b c) = Inl e \<and> e \<noteq> SameDocumentAssertion
            \<and> e \<noteq> BatchNotOpenAssertion)
        \<longrightarrow> fst (applyCall C b c) = b)
   \<and> ((\<exists>e. snd (applyCall C b c) = Inl e)
        \<longrightarrow> docPaths (fst (applyCall C b c)) = docPaths b
          \<and> resultsMap (fst (applyCall C b c)) = resultsMap b
          \<and> state (fst (applyCall C b c)) = state b
          \<and> committed (fst (applyCall C b c)) = committed b)"
proof -
  consider (early) "earlyFailure b (applyCall C b c)"
    | (push) "pushed b (callRef c) (applyCall C b c)"
    using applyCall_shape by blast
  then show ?thesis
  proof cases
    case early
    then show ?thesis by (auto simp: earlyFailure_def)
  next
    case push
    then obtain th where nc: "\<not> committed b"
      and eq: "applyCall C b c = processOperation (pushOp b th) (callRef c)"
      by (auto simp: pushed_def)
    show ?thesis
    proof (cases "snd (applyCall C b c)")
      case (Inl e)
      then have "processOperation (pushOp b th) (callRef c) = (fst (applyCall C b c), Inl e)"
        using eq by (metis prod.collapse)
      from processOperation_failure [OF this] Inl nc show ?thesis
        by auto
    next
      case (Inr k)
      then have "processOperation (pushOp b th) (callRef c) = (fst (applyCall C b c), Inr k)"
        using eq by (metis prod.collapse)
      from processOperation_success(1,2) [OF this] Inr nc show ?thesis
        by auto
    qed
  qed
qed

lemma append_failure_evals:
  "committed (oneCreate\<lparr>committed := True\<rparr>)"
  "snd (create testCollab (oneCreate\<lparr>committed := True\<rparr>) (testDoc ''doc2'') fooBar)
     = Inl CommittedError"
  "snd (create testCollab oneCreate (testDoc ''doc'') fooBar) = Inl SameDocumentAssertion"
  "snd (create testCollab (markReadyToSend oneCreate) (testDoc ''doc2'') fooBar)
     = Inl BatchNotOpenAssertion"
  by code_simp+

theorem append_failure_witness:
  "committed (oneCreate\<lparr>committed := True\<rparr>)
   \<and> snd (applyCall testCollab (oneCreate\<lparr>committed := True\<rparr>)
          (CallCreate (testDoc ''doc2'') fooBar)) = Inl CommittedError
   \<and> fst (applyCall testCollab (oneCreate\<lparr>committed := True\<rparr>)
          (CallCreate (testDoc ''doc2'') fooBar)) = oneCreate\<lparr>committed := True\<rparr>
   \<and> snd (applyCall testCollab oneCreate (CallCreate (testDoc ''doc'') fooBar))
        = Inl SameDocumentAssertion
   \<and> path (testDoc ''doc'') \<in> set (docPaths oneCreate)
   \<and> docPaths (fst (applyCall testCollab oneCreate (CallCreate (testDoc ''doc'') fooBar)))
        = docPaths oneCreate
   \<and> resultsMap (fst (applyCall testCollab oneCreate (CallCreate (testDoc ''doc'') fooBar)))
        = resultsMap oneCreate
   \<and> snd (applyCall testCollab (markReadyToSend oneCreate)
          (CallCreate (testDoc ''doc2'') fooBar)) = Inl BatchNotOpenAssertion
   \<and> state (markReadyToSend oneCreate) \<noteq> OPEN
   \<and> state (fst (applyCall testCollab (markReadyToSend oneCreate)
          (CallCreate (testDoc ''doc2'') fooBar))) = state (markReadyToSend oneCreate)"
  using append_failure [of "oneCreate\<lparr>committed := True\<rparr>"
      "CallCreate (testDoc ''doc2'') fooBar" testCollab]
    append_failure [of oneCreate "CallCreate (testDoc ''doc'') fooBar" testCollab]
    append_failure [of "markReadyToSend oneCreate" "CallCreate (testDoc ''doc2'') fooBar"
      testCollab]
  by (simp add: append_failure_evals)

text \<open>
  The claim as stated fails: on a batch marked ready to send and not committed, a
  \<^verbatim>\<open>set\<close> of a new document throws the assertion on the state, not the
  already-committed error, and its payload producer has been pushed onto \<^verbatim>\<open>_ops\<close>;
  so has the producer of a \<^verbatim>\<open>set\<close> of a document the batch already holds.
\<close>

theorem append_failure_counterexample:
  "state (markReadyToSend oneCreate) = READY_TO_SEND
   \<and> \<not> committed (markReadyToSend oneCreate)
   \<and> length (ops (markReadyToSend oneCreate)) = 1
   \<and> snd (applyCall testCollab (markReadyToSend oneCreate)
          (CallSet (testDoc ''doc2'') fooBar JUndefined)) = Inl BatchNotOpenAssertion
   \<and> length (ops (fst (applyCall testCollab (markReadyToSend oneCreate)
          (CallSet (testDoc ''doc2'') fooBar JUndefined)))) = 2
   \<and> path (testDoc ''doc'') \<in> set (docPaths oneCreate)
   \<and> length (ops oneCreate) = 1
   \<and> snd (applyCall testCollab oneCreate (CallSet (testDoc ''doc'') fooBar JUndefined))
        = Inl SameDocumentAssertion
   \<and> length (ops (fst (applyCall testCollab oneCreate
          (CallSet (testDoc ''doc'') fooBar JUndefined)))) = 2"
  by code_simp

subsection \<open>Committing\<close>

lemma shouldCreateTransaction_iff:
  "shouldCreateTransaction F \<longleftrightarrow>
     preferTransactions F \<and>
       (case lastSuccessfulRequest F of None \<Rightarrow> True | Some t \<Rightarrow> t = 0 \<or> 110000 < now F - t)"
  by (auto simp: shouldCreateTransaction_def GCF_IDLE_TIMEOUT_MS_def split: option.splits)

lemma serializeWrites_frame [simp]:
  "serializeWrites C (logEvent b e) = serializeWrites C b"
  "serializeWrites C (b\<lparr>committed := c\<rparr>) = serializeWrites C b"
  "serializeWrites C (snd (buildWrites C' b)) = serializeWrites C b"
  by (simp_all add: serializeWrites_map logEvent_def buildWrites_snd)

lemma commit_init_fails:
  assumes "initializeIfNeeded F = Some e"
  shows "commit' C F b t = (b\<lparr>committed := True\<rparr>, Inl (RpcError e))"
  supply commit'.simps [simp del]
  using assms by (subst commit'.simps) (simp add: Let_def)

lemma commit_direct:
  assumes "initializeIfNeeded F = None" and "t \<noteq> None \<or> \<not> shouldCreateTransaction F"
  shows "commit' C F b t =
     (logEvent (snd (buildWrites C (b\<lparr>committed := True\<rparr>)))
        (CommitRpc \<lparr> database = databaseName F, writes = serializeWrites C b, transaction = t \<rparr>),
      case commit F \<lparr> database = databaseName F, writes = serializeWrites C b, transaction = t \<rparr> of
        Inl e \<Rightarrow> Inl (RpcError e) | Inr response \<Rightarrow> Inr (commitResults response))"
  supply commit'.simps [simp del]
  using assms
  by (subst commit'.simps)
    (auto simp: Let_def split_beta serializeWrites_def [symmetric] split: sum.splits)

lemma commit_begin:
  assumes "initializeIfNeeded F = None" and "shouldCreateTransaction F"
  shows "commit' C F b None =
     (case beginTransaction F (databaseName F) of
        Inl e \<Rightarrow> (logEvent (b\<lparr>committed := True\<rparr>) (BeginTransactionRpc (databaseName F)),
                  Inl (RpcError e))
      | Inr tx \<Rightarrow>
          commit' C F (logEvent (b\<lparr>committed := True\<rparr>) (BeginTransactionRpc (databaseName F)))
            (Some tx))"
  supply commit'.simps [simp del]
  using assms
  by (subst commit'.simps) (simp add: Let_def split: sum.splits)

lemma newEvents_logs [simp]:
  "newEvents b (logEvent (snd (buildWrites C (b\<lparr>committed := c\<rparr>))) e) =
     map ThunkCalled [0..<length (ops b)] @ [e]"
  "newEvents b (logEvent (b\<lparr>committed := c\<rparr>) e) = [e]"
  "newEvents b (logEvent (snd (buildWrites C
       (logEvent (b\<lparr>committed := c\<rparr>) e1\<lparr>committed := c'\<rparr>))) e2) =
     e1 # map ThunkCalled [0..<length (ops b)] @ [e2]"
  "newEvents b (b\<lparr>committed := c\<rparr>) = []"
  by (simp_all add: newEvents_def logEvent_def buildWrites_snd)

lemma filter_isRpc_thunks [simp]: "filter isRpc (map ThunkCalled ks) = []"
  by (induction ks) simp_all

text \<open>The events and the result of a commit, path by path.\<close>

lemma commit_events:
  assumes "initializeIfNeeded F = None"
  shows "newEvents b (fst (commit' C F b t)) =
     (if t = None \<and> shouldCreateTransaction F
      then BeginTransactionRpc (databaseName F) #
        (case beginTransaction F (databaseName F) of
           Inl e \<Rightarrow> []
         | Inr tx \<Rightarrow> map ThunkCalled [0..<length (ops b)] @
             [CommitRpc \<lparr> database = databaseName F, writes = serializeWrites C b,
                          transaction = Some tx \<rparr>])
      else map ThunkCalled [0..<length (ops b)] @
             [CommitRpc \<lparr> database = databaseName F, writes = serializeWrites C b,
                          transaction = t \<rparr>])"
  supply commit'.simps [simp del]
proof (cases "t = None \<and> shouldCreateTransaction F")
  case True
  then show ?thesis
    using assms by (auto simp: commit_begin commit_direct split: sum.splits)
next
  case False
  then have "t \<noteq> None \<or> \<not> shouldCreateTransaction F" by auto
  from commit_direct [OF assms this] False show ?thesis by auto
qed

lemma commit_result:
  assumes "initializeIfNeeded F = None"
  shows "snd (commit' C F b t) =
     (if t = None \<and> shouldCreateTransaction F
      then (case beginTransaction F (databaseName F) of
           Inl e \<Rightarrow> Inl (RpcError e)
         | Inr tx \<Rightarrow>
            (case commit F \<lparr> database = databaseName F, writes = serializeWrites C b,
                          transaction = Some tx \<rparr> of
               Inl e \<Rightarrow> Inl (RpcError e) | Inr response \<Rightarrow> Inr (commitResults response)))
      else (case commit F \<lparr> database = databaseName F, writes = serializeWrites C b,
                          transaction = t \<rparr> of
               Inl e \<Rightarrow> Inl (RpcError e) | Inr response \<Rightarrow> Inr (commitResults response)))"
  supply commit'.simps [simp del]
proof (cases "t = None \<and> shouldCreateTransaction F")
  case True
  then show ?thesis
    using assms by (auto simp: commit_begin commit_direct split: sum.splits)
next
  case False
  then have "t \<noteq> None \<or> \<not> shouldCreateTransaction F" by auto
  from commit_direct [OF assms this] False show ?thesis by auto
qed

lemma logs_resultsMap [simp]:
  "resultsMap (logEvent b e) = resultsMap b"
  "resultsMap (snd (buildWrites C b)) = resultsMap b"
  by (simp_all add: logEvent_def buildWrites_snd)

lemma commit_resultsMap: "resultsMap (fst (commit' C F b t)) = resultsMap b"
  supply commit'.simps [simp del]
proof (cases "initializeIfNeeded F")
  case (Some e)
  then show ?thesis by (simp add: commit_init_fails)
next
  case None
  show ?thesis
  proof (cases "t = None \<and> shouldCreateTransaction F")
    case True
    then show ?thesis
      using None by (auto simp: commit_begin commit_direct split: sum.splits)
  next
    case False
    then have "t \<noteq> None \<or> \<not> shouldCreateTransaction F" by auto
    from commit_direct [OF None this] show ?thesis by simp
  qed
qed

subsection \<open>C2: when a commit begins a transaction\<close>

text \<open>
  Claim C2. Let \<^verbatim>\<open>initializeIfNeeded\<close> succeed. A call of \<^verbatim>\<open>commit_\<close> without a
  transaction id issues \<^verbatim>\<open>beginTransaction\<close> first, and then the commit request with
  the returned transaction id, exactly when \<^verbatim>\<open>_preferTransactions\<close> is true and
  \<^verbatim>\<open>_lastSuccessfulRequest\<close> is unset or more than 110000 ms before the clock; a
  rejected \<^verbatim>\<open>beginTransaction\<close> is the only request then. In every other case the
  commit request is the only request and carries no transaction id, and a call with a
  transaction id issues the commit request alone, carrying that id. The request time is
  unset when it is \<^verbatim>\<open>undefined\<close> or the number 0: the source tests it for
  truthiness.
\<close>

theorem commit_transaction_decision:
  assumes "initializeIfNeeded F = None"
  shows "filter isRpc (newEvents b (fst (commit' C F b None))) =
     (if preferTransactions F \<and>
         (case lastSuccessfulRequest F of None \<Rightarrow> True | Some t \<Rightarrow> t = 0 \<or> 110000 < now F - t)
      then (case beginTransaction F (databaseName F) of
              Inl e \<Rightarrow> [BeginTransactionRpc (databaseName F)]
            | Inr tx \<Rightarrow> [BeginTransactionRpc (databaseName F),
                CommitRpc \<lparr> database = databaseName F, writes = serializeWrites C b,
                            transaction = Some tx \<rparr>])
      else [CommitRpc \<lparr> database = databaseName F, writes = serializeWrites C b,
                        transaction = None \<rparr>])
    \<and> filter isRpc (newEvents b (fst (commit' C F b (Some tx)))) =
      [CommitRpc \<lparr> database = databaseName F, writes = serializeWrites C b,
                        transaction = Some tx \<rparr>]"
  supply commit'.simps [simp del]
  using shouldCreateTransaction_iff [of F]
  by (auto simp: commit_events [OF assms] split: sum.splits)

lemma testFirestore_simps:
  "initializeIfNeeded (testFirestore p l n) = None"
  "preferTransactions (testFirestore p l n) = p"
  "lastSuccessfulRequest (testFirestore p l n) = l"
  "now (testFirestore p l n) = n"
  "databaseName (testFirestore p l n) = ''projects/test-project/databases/(default)''"
  "beginTransaction (testFirestore p l n) db = Inr [116, 120]"
  by (simp_all add: testFirestore_def respondWith_def)

theorem commit_transaction_decision_witness:
  "initializeIfNeeded (testFirestore True (Some 1000) 200000) = None
   \<and> filter isRpc (newEvents oneCreate
        (fst (commit' testCollab (testFirestore True (Some 1000) 200000) oneCreate None))) =
      [BeginTransactionRpc ''projects/test-project/databases/(default)'',
       CommitRpc \<lparr> database = ''projects/test-project/databases/(default)'',
                   writes = serializeWrites testCollab oneCreate,
                   transaction = Some [116, 120] \<rparr>]
   \<and> filter isRpc (newEvents oneCreate
        (fst (commit' testCollab (testFirestore True None 5) oneCreate None))) =
      [BeginTransactionRpc ''projects/test-project/databases/(default)'',
       CommitRpc \<lparr> database = ''projects/test-project/databases/(default)'',
                   writes = serializeWrites testCollab oneCreate,
                   transaction = Some [116, 120] \<rparr>]
   \<and> filter isRpc (newEvents oneCreate
        (fst (commit' testCollab (testFirestore True (Some 1000) 111000) oneCreate None))) =
      [CommitRpc \<lparr> database = ''projects/test-project/databases/(default)'',
                   writes = serializeWrites testCollab oneCreate, transaction = None \<rparr>]
   \<and> filter isRpc (newEvents oneCreate
        (fst (commit' testCollab (testFirestore False None 5) oneCreate None))) =
      [CommitRpc \<lparr> database = ''projects/test-project/databases/(default)'',
                   writes = serializeWrites testCollab oneCreate, transaction = None \<rparr>]
   \<and> filter isRpc (newEvents oneCreate
        (fst (commit' testCollab (testFirestore True None 5) oneCreate (Some [7])))) =
      [CommitRpc \<lparr> database = ''projects/test-project/databases/(default)'',
                   writes = serializeWrites testCollab oneCreate, transaction = Some [7] \<rparr>]"
  supply commit'.simps [simp del]
  using commit_transaction_decision [of "testFirestore True (Some 1000) 200000"
      oneCreate testCollab "[7]"]
    commit_transaction_decision [of "testFirestore True None 5" oneCreate testCollab "[7]"]
    commit_transaction_decision [of "testFirestore True (Some 1000) 111000"
      oneCreate testCollab "[7]"]
    commit_transaction_decision [of "testFirestore False None 5" oneCreate testCollab "[7]"]
  by (simp add: testFirestore_simps)

subsection \<open>C4: the results of a commit\<close>

lemma commitResults_nth:
  "length (commitResults response) = length (orEmpty (writeResults response))"
  "i < length (orEmpty (writeResults response)) \<Longrightarrow>
     commitResults response ! i =
       WriteResult (fromProto (case updateTime (orEmpty (writeResults response) ! i) of
          Some u \<Rightarrow> u | None \<Rightarrow> commitTime response))"
  by (simp_all add: commitResults_def)

text \<open>
  Claim C4. Let \<^verbatim>\<open>initializeIfNeeded\<close> succeed. When the commit request that
  \<^verbatim>\<open>commit_\<close> issued is answered, the call returns one \<^verbatim>\<open>WriteResult\<close> for every index
  of \<^verbatim>\<open>writeResults\<close>, whose write time is \<^verbatim>\<open>writeResults[i].updateTime\<close> when
  present and the commit time of the response otherwise. When the commit request, or the
  \<^verbatim>\<open>beginTransaction\<close> before it, is rejected, the call is rejected as a whole with that
  error: no operation gets a result. The deferred results of the single operations are
  not touched by a commit.
\<close>

theorem commit_results:
  assumes "initializeIfNeeded F = None"
  shows "(\<forall>request response.
            CommitRpc request \<in> set (newEvents b (fst (commit' C F b t)))
            \<and> commit F request = Inr response \<longrightarrow>
            (\<exists>rs. snd (commit' C F b t) = Inr rs
               \<and> length rs = length (orEmpty (writeResults response))
               \<and> (\<forall>i<length rs. rs ! i =
                    WriteResult (fromProto
                      (case updateTime (orEmpty (writeResults response) ! i) of
                         Some u \<Rightarrow> u | None \<Rightarrow> commitTime response)))))
    \<and> (\<forall>request e.
            CommitRpc request \<in> set (newEvents b (fst (commit' C F b t)))
            \<and> commit F request = Inl e \<longrightarrow> snd (commit' C F b t) = Inl (RpcError e))
    \<and> (\<forall>e. BeginTransactionRpc (databaseName F) \<in> set (newEvents b (fst (commit' C F b t)))
            \<and> beginTransaction F (databaseName F) = Inl e
            \<longrightarrow> snd (commit' C F b t) = Inl (RpcError e))
    \<and> resultsMap (fst (commit' C F b t)) = resultsMap b"
  supply commit'.simps [simp del]
  by (auto simp: commit_events [OF assms] commit_result [OF assms] commit_resultsMap
      commitResults_nth split: sum.splits if_splits)

lemma commit_results_eval:
  "CommitRpc \<lparr> database = ''projects/test-project/databases/(default)'',
      writes = serializeWrites testCollab oneCreate, transaction = None \<rparr>
     \<in> set (newEvents oneCreate
         (fst (commit' testCollab (testFirestore False None 0) oneCreate None)))"
  "CommitRpc \<lparr> database = ''projects/test-project/databases/(default)'',
      writes = serializeWrites testCollab oneCreate, transaction = None \<rparr>
     \<in> set (newEvents oneCreate (fst (commit' testCollab failingCommit oneCreate None)))"
  by code_simp+

theorem commit_results_witness:
  "initializeIfNeeded (testFirestore False None 0) = None
   \<and> snd (commit' testCollab (testFirestore False None 0) oneCreate None)
      = Inr [WriteResult (Timestamp 5 0)]
   \<and> initializeIfNeeded failingCommit = None
   \<and> snd (commit' testCollab failingCommit oneCreate None) = Inl (RpcError unavailable)"
  supply commit'.simps [simp del]
proof -
  have init: "initializeIfNeeded (testFirestore False None 0) = None"
    by (simp add: testFirestore_def)
  have answer: "commit (testFirestore False None 0)
      \<lparr> database = ''projects/test-project/databases/(default)'',
        writes = serializeWrites testCollab oneCreate, transaction = None \<rparr>
      = Inr \<lparr> writeResults = Some [\<lparr> updateTime = None \<rparr>], commitTime = (5, 0) \<rparr>"
    by (simp add: testFirestore_def respondWith_def)
  from commit_results [OF init, of oneCreate testCollab None]
    commit_results_eval(1) answer
  obtain rs where rs: "snd (commit' testCollab (testFirestore False None 0) oneCreate None)
        = Inr rs"
    and len: "length rs = length (orEmpty (writeResults
        \<lparr> writeResults = Some [\<lparr> updateTime = None \<rparr>], commitTime = (5, 0) \<rparr>))"
    and nth: "\<forall>i<length rs. rs ! i = WriteResult (fromProto
        (case updateTime (orEmpty (writeResults
            \<lparr> writeResults = Some [\<lparr> updateTime = None \<rparr>], commitTime = (5, 0) \<rparr>) ! i) of
           Some u \<Rightarrow> u | None \<Rightarrow> commitTime
            \<lparr> writeResults = Some [\<lparr> updateTime = None \<rparr>], commitTime = (5, 0) \<rparr>))"
    by blast
  from len have "length rs = 1" by (simp add: orEmpty_def)
  moreover from this nth have "rs ! 0 = WriteResult (Timestamp 5 0)"
    by (simp add: orEmpty_def)
  ultimately have "rs = [WriteResult (Timestamp 5 0)]"
    by (cases rs) auto
  with rs have ok: "snd (commit' testCollab (testFirestore False None 0) oneCreate None)
      = Inr [WriteResult (Timestamp 5 0)]"
    by simp
  have init': "initializeIfNeeded failingCommit = None"
    by (simp add: failingCommit_def testFirestore_def)
  have rejected: "commit failingCommit
      \<lparr> database = ''projects/test-project/databases/(default)'',
        writes = serializeWrites testCollab oneCreate, transaction = None \<rparr>
      = Inl unavailable"
    by (simp add: failingCommit_def failWith_def)
  from commit_results [OF init', of oneCreate testCollab None]
    commit_results_eval(2) rejected
  have "snd (commit' testCollab failingCommit oneCreate None) = Inl (RpcError unavailable)"
    by blast
  with ok init init' show ?thesis by simp
qed

subsection \<open>C10: deferred serialisation\<close>

lemma processOperation_frame:
  "ops (fst (processOperation b r)) = ops b"
  "trace (fst (processOperation b r)) = trace b"
  by (simp_all add: processOperation_def Let_def)

lemma applyCall_trace: "trace (fst (applyCall C b c)) = trace b"
  using applyCall_shape [of b C c]
  by (auto simp: earlyFailure_def pushed_def processOperation_frame)

text \<open>What a call that returns has pushed, kind by kind.\<close>

lemma create_returned:
  assumes "create Ce b r d = (b', Inr k)"
  shows "\<exists>th. ops b' = ops b @ [th]
     \<and> attachPrecondition (runThunk Cs th) = wireForm Ce Cs (CallCreate r d)"
proof -
  let ?th = "CreateThunk r (toFirestore Ce r d) (transformFromObject Ce r (toFirestore Ce r d))
      (newPrecondition (JObj [(''exists'', JBool False)]))"
  from assms have "processOperation (pushOp b ?th) r = (b', Inr k)"
    by (auto simp: create_def Let_def split: if_splits option.splits)
  from processOperation_success(6) [OF this] have "ops b' = ops b @ [?th]" by simp
  moreover have "attachPrecondition (runThunk Cs ?th) = wireForm Ce Cs (CallCreate r d)"
    by (simp add: attachPrecondition_def withTransforms_def transformsOf_def
        newPrecondition_def preconditionToProto_def Let_def)
  ultimately show ?thesis by blast
qed

lemma delete_returned:
  assumes "delete Ce b r p = (b', Inr k)"
  shows "\<exists>th. ops b' = ops b @ [th]
     \<and> attachPrecondition (runThunk Cs th) = wireForm Ce Cs (CallDelete r p)"
proof -
  let ?th = "DeleteThunk r (newPrecondition p)"
  from assms have "processOperation (pushOp b ?th) r = (b', Inr k)"
    by (auto simp: delete_def Let_def split: if_splits option.splits)
  from processOperation_success(6) [OF this] have "ops b' = ops b @ [?th]" by simp
  moreover have "attachPrecondition (runThunk Cs ?th) = wireForm Ce Cs (CallDelete r p)"
    by (simp add: attachPrecondition_def split: option.splits)
  ultimately show ?thesis by blast
qed

lemma setFinish_returned:
  assumes "setFinish Ce b r ml m d = (b', Inr k)"
  shows "ops b' = ops b @ [SetThunk r d (transformFromObject Ce r d) m ml]"
proof -
  from assms
  have "processOperation (pushOp b (SetThunk r d (transformFromObject Ce r d) m ml)) r
      = (b', Inr k)"
    by (auto simp: setFinish_def Let_def split: if_splits)
  from processOperation_success(6) [OF this] show ?thesis by simp
qed

lemma set_returned:
  assumes "set_doc Ce b r d opts = (b', Inr k)"
  shows "\<exists>th. ops b' = ops b @ [th]
     \<and> attachPrecondition (runThunk Cs th) = wireForm Ce Cs (CallSet r d opts)"
proof (cases "truthy (if truthy opts then getProp opts ''mergeFields'' else opts)")
  case True
  let ?paths = "if truthy opts then getProp opts ''mergeFields'' else opts"
  let ?ml = "truthy opts \<and> getProp opts ''merge'' = JBool True"
  let ?m = "maskFromFieldMask Ce (arrayItems ?paths)"
  from assms True obtain masked
    where ap: "maskApplyTo Ce ?m (toFirestore Ce r d) = Some masked"
      and fin: "setFinish Ce b r ?ml (Some ?m) masked = (b', Inr k)"
    by (auto simp: set_doc_def Let_def split: if_splits option.splits)
  let ?th = "SetThunk r masked (transformFromObject Ce r masked) (Some ?m) ?ml"
  from setFinish_returned [OF fin] have "ops b' = ops b @ [?th]" .
  moreover have "attachPrecondition (runThunk Cs ?th) = wireForm Ce Cs (CallSet r d opts)"
    using True ap
    by (auto simp: attachPrecondition_def withTransforms_def transformsOf_def Let_def
        split: if_splits)
  ultimately show ?thesis by blast
next
  case False
  let ?ml = "truthy opts \<and> getProp opts ''merge'' = JBool True"
  from assms False
  have fin: "setFinish Ce b r ?ml None (toFirestore Ce r d) = (b', Inr k)"
    by (auto simp: set_doc_def Let_def split: if_splits option.splits)
  let ?th = "SetThunk r (toFirestore Ce r d) (transformFromObject Ce r (toFirestore Ce r d))
      None ?ml"
  from setFinish_returned [OF fin] have "ops b' = ops b @ [?th]" .
  moreover have "attachPrecondition (runThunk Cs ?th) = wireForm Ce Cs (CallSet r d opts)"
    using False
    by (auto simp: attachPrecondition_def withTransforms_def transformsOf_def Let_def
        split: if_splits)
  ultimately show ?thesis by blast
qed

lemma update_success:
  assumes "update C b documentRef args = (b', Inr k)"
  shows "\<exists>um pre. updateArguments C args = Inr (um, pre) \<and> args \<noteq> []
     \<and> ops b' = ops b @ [UpdateThunk documentRef um
          (transformFromUpdateMap C documentRef um) (maskFromUpdateMap C um) pre]"
proof -
  from assms obtain um pre where ua: "updateArguments C args = Inr (um, pre)"
    and ne: "args \<noteq> []"
    and po: "processOperation
        (pushOp b (UpdateThunk documentRef um (transformFromUpdateMap C documentRef um)
           (maskFromUpdateMap C um) pre)) documentRef = (b', Inr k)"
    by (auto simp: update_def Let_def verifyNotCommitted_def
        split: if_splits option.splits sum.splits prod.splits)
  from processOperation_success(6) [OF po] ua ne show ?thesis by simp
qed

lemma update_returned:
  assumes "update Ce b r args = (b', Inr k)"
  shows "\<exists>th. ops b' = ops b @ [th]
     \<and> attachPrecondition (runThunk Cs th) = wireForm Ce Cs (CallUpdate r args)"
proof -
  from update_success [OF assms] obtain um pre
    where ua: "updateArguments Ce args = Inr (um, pre)"
      and ops: "ops b' = ops b @ [UpdateThunk r um (transformFromUpdateMap Ce r um)
          (maskFromUpdateMap Ce um) pre]"
    by blast
  have "attachPrecondition (runThunk Cs (UpdateThunk r um (transformFromUpdateMap Ce r um)
          (maskFromUpdateMap Ce um) pre)) = wireForm Ce Cs (CallUpdate r args)"
    using ua
    by (simp add: attachPrecondition_def withTransforms_def transformsOf_def Let_def
        split: option.splits)
  with ops show ?thesis by blast
qed

lemma applyCall_returned:
  assumes "applyCall Ce b c = (b', Inr k)"
  shows "\<exists>th. ops b' = ops b @ [th] \<and> attachPrecondition (runThunk Cs th) = wireForm Ce Cs c"
proof (cases c)
  case (CallCreate r d)
  with assms create_returned [of Ce b r d b' k Cs] show ?thesis by simp
next
  case (CallDelete r p)
  with assms delete_returned [of Ce b r p b' k Cs] show ?thesis by simp
next
  case (CallSet r d opts)
  with assms set_returned [of Ce b r d opts b' k Cs] show ?thesis by simp
next
  case (CallUpdate r args)
  with assms update_returned [of Ce b r args b' k Cs] show ?thesis by simp
qed

lemma applyCall_threw:
  assumes "applyCall C b c = (b', Inl e)"
    and "e \<noteq> SameDocumentAssertion" and "e \<noteq> BatchNotOpenAssertion"
  shows "b' = b"
proof -
  consider (early) "earlyFailure b (applyCall C b c)"
    | (push) "pushed b (callRef c) (applyCall C b c)"
    using applyCall_shape by blast
  then show ?thesis
  proof cases
    case early
    with assms(1) show ?thesis by (auto simp: earlyFailure_def)
  next
    case push
    then obtain th where "processOperation (pushOp b th) (callRef c) = (b', Inl e)"
      using assms(1) by (auto simp: pushed_def)
    from processOperation_failure(2) [OF this] assms(2,3) show ?thesis by auto
  qed
qed

lemma serializeWrites_append:
  assumes "ops b' = ops b @ [th]"
  shows "serializeWrites C b' = serializeWrites C b @ [attachPrecondition (runThunk C th)]"
  using assms by (simp add: serializeWrites_map)

lemma applyCalls_writes:
  assumes "applyCalls Ce b cs = (b', rs)"
    and "Inl SameDocumentAssertion \<notin> set rs" and "Inl BatchNotOpenAssertion \<notin> set rs"
  shows "trace b' = trace b
     \<and> serializeWrites Cs b' = serializeWrites Cs b @ map (wireForm Ce Cs) (returned cs rs)"
  using assms
proof (induction cs arbitrary: b rs b')
  case Nil
  then show ?case by simp
next
  case (Cons c cs)
  obtain b1 r where first: "applyCall Ce b c = (b1, r)" by (cases "applyCall Ce b c")
  obtain b2 rs' where rest: "applyCalls Ce b1 cs = (b2, rs')" by (cases "applyCalls Ce b1 cs")
  from Cons.prems(1) first rest have b': "b' = b2" and rs: "rs = r # rs'" by simp_all
  from Cons.prems(2,3) rs
  have ok: "Inl SameDocumentAssertion \<notin> set rs'" "Inl BatchNotOpenAssertion \<notin> set rs'"
    and r: "r \<noteq> Inl SameDocumentAssertion" "r \<noteq> Inl BatchNotOpenAssertion"
    by auto
  from Cons.IH [OF rest ok]
  have IH: "trace b2 = trace b1"
    "serializeWrites Cs b2 = serializeWrites Cs b1 @ map (wireForm Ce Cs) (returned cs rs')"
    by simp_all
  from first applyCall_trace [of Ce b c] have tr: "trace b1 = trace b" by simp
  show ?case
  proof (cases r)
    case (Inr k)
    with first applyCall_returned [of Ce b c b1 k Cs] obtain th
      where "ops b1 = ops b @ [th]"
        and "attachPrecondition (runThunk Cs th) = wireForm Ce Cs c"
      by blast
    with serializeWrites_append [of b1 b th Cs]
    have "serializeWrites Cs b1 = serializeWrites Cs b @ [wireForm Ce Cs c]" by simp
    with IH tr b' rs Inr show ?thesis by simp
  next
    case (Inl e)
    with r have "e \<noteq> SameDocumentAssertion" "e \<noteq> BatchNotOpenAssertion" by auto
    from applyCall_threw [OF _ this] first Inl have "b1 = b" by simp
    with IH b' rs Inl show ?thesis by simp
  qed
qed

lemma bulkCommit_events:
  "newEvents b (fst (bulkCommit C F b)) =
     (case initializeIfNeeded F of
        Some e \<Rightarrow> []
      | None \<Rightarrow> map ThunkCalled [0..<length (ops b)] @
          [BatchWriteRpc \<lparr> database = databaseName F, writes = serializeWrites C b \<rparr>])"
  by (simp add: bulkCommit_unfold split: option.splits sum.splits)

text \<open>
  Claim C10. Let a caller make the calls \<open>cs\<close> of \<^verbatim>\<open>create\<close>, \<^verbatim>\<open>set\<close>, \<^verbatim>\<open>update\<close> and
  \<^verbatim>\<open>delete\<close> on a new batch, with the collaborators \<open>Ce\<close> in force, and let none of them
  fail on an assertion of \<^verbatim>\<open>processOperation\<close>; the calls that throw a validation error
  append nothing. The calls invoke no payload producer: the log is empty when they are
  done, and \<^verbatim>\<open>_ops\<close> holds one producer for each call that returned. When the batch
  is then committed with the collaborators \<open>Cs\<close> in force, \<^verbatim>\<open>bulkCommit\<close> and
  \<^verbatim>\<open>commit_\<close> invoke the producers of the indices \<open>0, 1, ...\<close> in this order, once
  each, right before the request (and after \<^verbatim>\<open>beginTransaction\<close> when there is one), and
  not at all when \<^verbatim>\<open>initializeIfNeeded\<close> or \<^verbatim>\<open>beginTransaction\<close> is rejected. The writes
  of the request are, in the order of the calls that returned, the write of each call:
  built from the values the call captured under \<open>Ce\<close> by the serialisers of \<open>Cs\<close>, not by
  those of \<open>Ce\<close>.
\<close>

theorem thunks_run_at_commit:
  assumes "applyCalls Ce (newUpdateBuilder n) cs = (b, rs)"
    and "Inl SameDocumentAssertion \<notin> set rs"
    and "Inl BatchNotOpenAssertion \<notin> set rs"
  shows "trace b = []
   \<and> length (ops b) = length (returned cs rs)
   \<and> trace (fst (bulkCommit Cs F b)) =
       (case initializeIfNeeded F of
          Some e \<Rightarrow> []
        | None \<Rightarrow> map ThunkCalled [0..<length (returned cs rs)] @
            [BatchWriteRpc \<lparr> database = databaseName F,
                             writes = map (wireForm Ce Cs) (returned cs rs) \<rparr>])
   \<and> trace (fst (commit' Cs F b t)) =
       (case initializeIfNeeded F of
          Some e \<Rightarrow> []
        | None \<Rightarrow>
           if t = None \<and> shouldCreateTransaction F
           then BeginTransactionRpc (databaseName F) #
             (case beginTransaction F (databaseName F) of
                Inl e \<Rightarrow> []
              | Inr tx \<Rightarrow> map ThunkCalled [0..<length (returned cs rs)] @
                  [CommitRpc \<lparr> database = databaseName F,
                               writes = map (wireForm Ce Cs) (returned cs rs),
                               transaction = Some tx \<rparr>])
           else map ThunkCalled [0..<length (returned cs rs)] @
                  [CommitRpc \<lparr> database = databaseName F,
                               writes = map (wireForm Ce Cs) (returned cs rs),
                               transaction = t \<rparr>])"
  supply commit'.simps [simp del]
proof -
  from applyCalls_writes [OF assms, of Cs]
  have tr: "trace b = []"
    and ws: "serializeWrites Cs b = map (wireForm Ce Cs) (returned cs rs)"
    by (simp_all add: newUpdateBuilder_def serializeWrites_map)
  from ws have len: "length (ops b) = length (returned cs rs)"
    by (metis length_map serializeWrites_map)
  from tr have ev: "newEvents b b' = trace b'" for b'
    by (simp add: newEvents_def)
  have bulk: "trace (fst (bulkCommit Cs F b)) =
       (case initializeIfNeeded F of
          Some e \<Rightarrow> []
        | None \<Rightarrow> map ThunkCalled [0..<length (returned cs rs)] @
            [BatchWriteRpc \<lparr> database = databaseName F,
                             writes = map (wireForm Ce Cs) (returned cs rs) \<rparr>])"
    using bulkCommit_events [of b Cs F] by (simp add: ev ws len split: option.splits)
  have com: "trace (fst (commit' Cs F b t)) =
       (case initializeIfNeeded F of
          Some e \<Rightarrow> []
        | None \<Rightarrow>
           if t = None \<and> shouldCreateTransaction F
           then BeginTransactionRpc (databaseName F) #
             (case beginTransaction F (databaseName F) of
                Inl e \<Rightarrow> []
              | Inr tx \<Rightarrow> map ThunkCalled [0..<length (returned cs rs)] @
                  [CommitRpc \<lparr> database = databaseName F,
                               writes = map (wireForm Ce Cs) (returned cs rs),
                               transaction = Some tx \<rparr>])
           else map ThunkCalled [0..<length (returned cs rs)] @
                  [CommitRpc \<lparr> database = databaseName F,
                               writes = map (wireForm Ce Cs) (returned cs rs),
                               transaction = t \<rparr>])"
  proof (cases "initializeIfNeeded F")
    case None
    from commit_events [OF None, of b Cs t] show ?thesis
      by (simp only: ev ws len None option.case)
  next
    case (Some e)
    then show ?thesis by (simp add: commit_init_fails tr)
  qed
  from tr len bulk com show ?thesis by simp
qed

lemma fiveCalls_eval:
  "snd (applyCalls testCollab (newUpdateBuilder 500) fiveCalls) =
     [Inr 0, Inr 1, Inl NotPlainObject, Inr 2, Inr 3]"
  "map (wireForm testCollab lateCollab)
     (returned fiveCalls [Inr 0, Inr 1, Inl NotPlainObject, Inr 2, Inr 3]) =
     [(testWrite (testDoc ''doc1'') (JObj [(''late'', fooBar)]))
        \<lparr>currentDocument := Some (PExists False)\<rparr>,
      \<lparr> writeUpdate = None,
        writeDelete =
          Some ''projects/test-project/databases/(default)/documents/collectionId/doc2'',
        updateMask = None, updateTransforms = None,
        currentDocument = Some (PExists True) \<rparr>,
      (testWrite (testDoc ''doc4'') (JObj [(''late'', fooBar)]))
        \<lparr>updateMask := Some [[''foo'']]\<rparr>,
      (testWrite (testDoc ''doc5'')
          (JObj [(''late'', JArr [JArr [JFieldPath 0 [''foo''], JStr ''bar'']])]))
        \<lparr>updateMask := Some [[''foo'']], currentDocument := Some (PExists True)\<rparr>]"
  "length (returned fiveCalls [Inr 0, Inr 1, Inl NotPlainObject, Inr 2, Inr 3]) = 4"
  "initializeIfNeeded (testFirestore prefer lastRequest clock) = None"
  "shouldCreateTransaction (testFirestore True None 0)"
  "\<not> shouldCreateTransaction (testFirestore False None 0)"
  "beginTransaction (testFirestore True None 0) d = Inr [116, 120]"
  "databaseName (testFirestore prefer lastRequest clock) =
     ''projects/test-project/databases/(default)''"
  "[0..<4] = [0, 1, 2, 3]"
  by (code_simp, code_simp, code_simp,
      simp_all add: testFirestore_def shouldCreateTransaction_def respondWith_def upt_rec)

theorem thunks_run_at_commit_witness:
  "applyCalls testCollab (newUpdateBuilder 500) fiveCalls =
     (fiveCallsBatch, [Inr 0, Inr 1, Inl NotPlainObject, Inr 2, Inr 3])
   \<and> Inl SameDocumentAssertion \<notin> set [Inr 0, Inr 1, Inl NotPlainObject, Inr 2, Inr 3]
   \<and> Inl BatchNotOpenAssertion \<notin> set [Inr 0, Inr 1, Inl NotPlainObject, Inr 2, Inr (3::nat)]
   \<and> trace fiveCallsBatch = []
   \<and> length (ops fiveCallsBatch) = 4
   \<and> trace (fst (bulkCommit lateCollab (testFirestore False None 0) fiveCallsBatch)) =
      [ThunkCalled 0, ThunkCalled 1, ThunkCalled 2, ThunkCalled 3,
       BatchWriteRpc
         \<lparr> database = ''projects/test-project/databases/(default)'',
           writes =
             [(testWrite (testDoc ''doc1'') (JObj [(''late'', fooBar)]))
                \<lparr>currentDocument := Some (PExists False)\<rparr>,
              \<lparr> writeUpdate = None,
                writeDelete = Some
                  ''projects/test-project/databases/(default)/documents/collectionId/doc2'',
                updateMask = None, updateTransforms = None,
                currentDocument = Some (PExists True) \<rparr>,
              (testWrite (testDoc ''doc4'') (JObj [(''late'', fooBar)]))
                \<lparr>updateMask := Some [[''foo'']]\<rparr>,
              (testWrite (testDoc ''doc5'')
                  (JObj [(''late'', JArr [JArr [JFieldPath 0 [''foo''], JStr ''bar'']])]))
                \<lparr>updateMask := Some [[''foo'']],
                  currentDocument := Some (PExists True)\<rparr>] \<rparr>]
   \<and> trace (fst (commit' lateCollab (testFirestore True None 0) fiveCallsBatch None)) =
      [BeginTransactionRpc ''projects/test-project/databases/(default)'',
       ThunkCalled 0, ThunkCalled 1, ThunkCalled 2, ThunkCalled 3,
       CommitRpc
         \<lparr> database = ''projects/test-project/databases/(default)'',
           writes =
             [(testWrite (testDoc ''doc1'') (JObj [(''late'', fooBar)]))
                \<lparr>currentDocument := Some (PExists False)\<rparr>,
              \<lparr> writeUpdate = None,
                writeDelete = Some
                  ''projects/test-project/databases/(default)/documents/collectionId/doc2'',
                updateMask = None, updateTransforms = None,
                currentDocument = Some (PExists True) \<rparr>,
              (testWrite (testDoc ''doc4'') (JObj [(''late'', fooBar)]))
                \<lparr>updateMask := Some [[''foo'']]\<rparr>,
              (testWrite (testDoc ''doc5'')
                  (JObj [(''late'', JArr [JArr [JFieldPath 0 [''foo''], JStr ''bar'']])]))
                \<lparr>updateMask := Some [[''foo'']],
                  currentDocument := Some (PExists True)\<rparr>],
           transaction = Some [116, 120] \<rparr>]
   \<and> map (wireForm testCollab lateCollab)
        (returned fiveCalls [Inr 0, Inr 1, Inl NotPlainObject, Inr 2, Inr 3]) \<noteq>
      map (wireForm testCollab testCollab)
        (returned fiveCalls [Inr 0, Inr 1, Inl NotPlainObject, Inr 2, Inr 3])"
  supply commit'.simps [simp del]
proof -
  have ap: "applyCalls testCollab (newUpdateBuilder 500) fiveCalls =
     (fiveCallsBatch, [Inr 0, Inr 1, Inl NotPlainObject, Inr 2, Inr 3])"
    using fiveCalls_eval(1) by (simp add: fiveCallsBatch_def prod_eq_iff)
  have no: "Inl SameDocumentAssertion \<notin> set [Inr 0, Inr 1, Inl NotPlainObject, Inr 2, Inr 3]"
    "Inl BatchNotOpenAssertion \<notin> set [Inr 0, Inr 1, Inl NotPlainObject, Inr 2, Inr (3::nat)]"
    by simp_all
  have late: "map (wireForm testCollab lateCollab)
        (returned fiveCalls [Inr 0, Inr 1, Inl NotPlainObject, Inr 2, Inr 3]) \<noteq>
      map (wireForm testCollab testCollab)
        (returned fiveCalls [Inr 0, Inr 1, Inl NotPlainObject, Inr 2, Inr 3])"
    by code_simp
  from thunks_run_at_commit [OF ap no, of lateCollab "testFirestore False None 0" None]
    thunks_run_at_commit [OF ap no, of lateCollab "testFirestore True None 0" None]
  have "trace fiveCallsBatch = []
   \<and> length (ops fiveCallsBatch) = 4
   \<and> trace (fst (bulkCommit lateCollab (testFirestore False None 0) fiveCallsBatch)) =
      map ThunkCalled [0, 1, 2, 3] @
       [BatchWriteRpc
         \<lparr> database = ''projects/test-project/databases/(default)'',
           writes = map (wireForm testCollab lateCollab)
             (returned fiveCalls [Inr 0, Inr 1, Inl NotPlainObject, Inr 2, Inr 3]) \<rparr>]
   \<and> trace (fst (commit' lateCollab (testFirestore True None 0) fiveCallsBatch None)) =
      BeginTransactionRpc ''projects/test-project/databases/(default)'' #
       map ThunkCalled [0, 1, 2, 3] @
       [CommitRpc
         \<lparr> database = ''projects/test-project/databases/(default)'',
           writes = map (wireForm testCollab lateCollab)
             (returned fiveCalls [Inr 0, Inr 1, Inl NotPlainObject, Inr 2, Inr 3]),
           transaction = Some [116, 120] \<rparr>]"
    by (simp add: fiveCalls_eval(3-) del: One_nat_def)
  with ap no late show ?thesis
    by (simp add: fiveCalls_eval(2) del: One_nat_def)
qed

subsection \<open>C1: the result of an operation in bulk mode\<close>

lemma map_of_mapSet: "map_of (mapSet m k v) = (map_of m)(k \<mapsto> v)"
  by (induction m) auto

lemma resolveAll_lookup:
  "resolveAll m rs k = (m', None) \<Longrightarrow>
     map_of m' j =
       (if k \<le> j \<and> j < k + length rs
        then map_option (\<lambda>d. resolve d (rs ! (j - k))) (map_of m j)
        else map_of m j)"
proof (induction rs arbitrary: m k)
  case Nil
  then show ?case by auto
next
  case (Cons r rs)
  from Cons.prems obtain d where d: "map_of m k = Some d"
    and rest: "resolveAll (mapSet m k (resolve d r)) rs (k + 1) = (m', None)"
    by (auto split: option.splits)
  from Cons.IH [OF rest] d show ?case
    by (auto simp: map_of_mapSet nth_Cons')
qed

lemma resolveAll_succeeds:
  "\<forall>j<length rs. map_of m (k + j) \<noteq> None \<Longrightarrow> snd (resolveAll m rs k) = None"
proof (induction rs arbitrary: m k)
  case Nil
  then show ?case by simp
next
  case (Cons r rs)
  from Cons.prems have "map_of m (k + 0) \<noteq> None" by blast
  then obtain d where d: "map_of m k = Some d" by auto
  have "\<forall>j<length rs. map_of (mapSet m k (resolve d r)) (k + 1 + j) \<noteq> None"
  proof (intro allI impI)
    fix j assume "j < length rs"
    then have "map_of m (k + Suc j) \<noteq> None" using Cons.prems by auto
    then show "map_of (mapSet m k (resolve d r)) (k + 1 + j) \<noteq> None"
      by (simp add: map_of_mapSet)
  qed
  from Cons.IH [OF this] d show ?case by simp
qed

lemma batchResults_aligned:
  "i + length wrs \<le> length sts \<Longrightarrow>
     batchResults wrs sts i =
       Inr (map (\<lambda>j. batchWriteResult (wrs ! j) (sts ! (i + j))) [0..<length wrs])"
proof (induction wrs arbitrary: i)
  case Nil
  then show ?case by simp
next
  case (Cons r wrs)
  then have "batchResults wrs sts (i + 1) =
      Inr (map (\<lambda>j. batchWriteResult (wrs ! j) (sts ! (i + 1 + j))) [0..<length wrs])"
    by simp
  moreover have "[0..<length (r # wrs)] = 0 # map Suc [0..<length wrs]"
    by (simp add: upt_conv_Cons map_Suc_upt del: upt_Suc)
  ultimately show ?case
    using Cons.prems by (simp add: comp_def del: upt_Suc)
qed

lemma bulkCommit_answered:
  assumes "initializeIfNeeded F = None"
    and "batchWrite F \<lparr> database = databaseName F, writes = serializeWrites C b \<rparr> = Inr response"
  shows "snd (bulkCommit C F b) =
      batchResults (orEmpty (batchWriteResults response)) (batchStatus response) 0"
    and "resultsMap (fst (bulkCommit C F b)) = resultsMap b"
  using assms by (simp_all add: bulkCommit_unfold Let_def)

text \<open>
  Claim C1, as amended. Let \<^verbatim>\<open>bulkCommit\<close> be answered by a response whose status
  array is at least as long as \<^verbatim>\<open>writeResults\<close>, let every index of the response have a
  result slot in the batch, and let the results be handed to \<^verbatim>\<open>processResults\<close>. Then
  the promise of the operation at an index \<open>i\<close> whose deferred result was not resolved
  before is fulfilled with a \<^verbatim>\<open>WriteResult\<close> carrying \<^verbatim>\<open>writeResults[i].updateTime\<close>
  exactly when that update time is present, whatever \<^verbatim>\<open>status[i].code\<close> is, and is
  otherwise rejected with an error carrying \<^verbatim>\<open>status[i].code\<close> and
  \<^verbatim>\<open>status[i].message\<close> (the empty message when there is none). The outcome is a
  function of \<^verbatim>\<open>writeResults[i]\<close> and \<^verbatim>\<open>status[i]\<close> alone.
\<close>

theorem bulk_result_of_operation:
  assumes init: "initializeIfNeeded F = None"
    and answer: "batchWrite F \<lparr> database = databaseName F, writes = serializeWrites C b \<rparr>
        = Inr response"
    and aligned: "length (orEmpty (batchWriteResults response)) \<le> length (batchStatus response)"
    and slots: "\<forall>j<length (orEmpty (batchWriteResults response)). map_of (resultsMap b) j \<noteq> None"
    and i: "i < length (orEmpty (batchWriteResults response))"
    and pending: "map_of (resultsMap b) i = Some Unresolved"
  shows "\<exists>results. snd (bulkCommit C F b) = Inr results
     \<and> snd (processResults (fst (bulkCommit C F b)) results) = None
     \<and> operationPromise (fst (processResults (fst (bulkCommit C F b)) results)) i =
         Some (case updateTime (orEmpty (batchWriteResults response) ! i) of
                 Some t \<Rightarrow> Fulfilled (WriteResult (fromProto t))
               | None \<Rightarrow> Rejected
                   \<lparr> message = (case statusMessage (batchStatus response ! i) of
                                  None \<Rightarrow> [] | Some s \<Rightarrow> s),
                     code = statusCode (batchStatus response ! i) \<rparr>)"
proof -
  let ?wrs = "orEmpty (batchWriteResults response)"
  let ?sts = "batchStatus response"
  let ?rs = "map (\<lambda>j. batchWriteResult (?wrs ! j) (?sts ! (0 + j))) [0..<length ?wrs]"
  let ?b1 = "fst (bulkCommit C F b)"
  have res: "snd (bulkCommit C F b) = Inr ?rs"
    using bulkCommit_answered(1) [OF init answer] batchResults_aligned [of 0 ?wrs ?sts] aligned
    by simp
  have rm: "resultsMap ?b1 = resultsMap b"
    by (rule bulkCommit_answered(2) [OF init answer])
  have "\<forall>j<length ?rs. map_of (resultsMap ?b1) (0 + j) \<noteq> None"
    using slots rm by simp
  then have ok: "snd (resolveAll (resultsMap ?b1) ?rs 0) = None"
    by (rule resolveAll_succeeds)
  then obtain m' where m': "resolveAll (resultsMap ?b1) ?rs 0 = (m', None)"
    by (metis prod.collapse)
  have none: "snd (processResults ?b1 ?rs) = None"
    using m' by (simp add: processResults_def)
  have "resultsMap (fst (processResults ?b1 ?rs)) = m'"
    using m' by (simp add: processResults_def)
  then have "operationPromise (fst (processResults ?b1 ?rs)) i = map_option promiseOf (map_of m' i)"
    by (simp add: operationPromise_def)
  also have "map_of m' i = Some (Resolved (?rs ! i))"
    using resolveAll_lookup [OF m', of i] i pending rm by simp
  also have "?rs ! i = batchWriteResult (?wrs ! i) (?sts ! i)"
    using i by simp
  finally have "operationPromise (fst (processResults ?b1 ?rs)) i =
      Some (promiseOf (Resolved (batchWriteResult (?wrs ! i) (?sts ! i))))"
    by simp
  then have "operationPromise (fst (processResults ?b1 ?rs)) i =
         Some (case updateTime (?wrs ! i) of
                 Some t \<Rightarrow> Fulfilled (WriteResult (fromProto t))
               | None \<Rightarrow> Rejected
                   \<lparr> message = (case statusMessage (?sts ! i) of None \<Rightarrow> [] | Some s \<Rightarrow> s),
                     code = statusCode (?sts ! i) \<rparr>)"
    by (simp add: batchWriteResult_def googleError_def split: option.splits)
  with res none show ?thesis by blast
qed

lemma bulk_result_eval:
  "resultsMap twoSets = [(0, Unresolved), (1, Unresolved)]"
  "snd (bulkCommit testCollab (bulkFirestore mixedResponse) twoSets) =
     Inr [\<lparr> writeTime = Some (Timestamp 2 0), status = \<lparr> message = [], code = Some 0 \<rparr> \<rparr>,
          \<lparr> writeTime = None, status = unavailable \<rparr>]"
  by code_simp+

theorem bulk_result_of_operation_witness:
  "initializeIfNeeded (bulkFirestore mixedResponse) = None
   \<and> map_of (resultsMap twoSets) 0 = Some Unresolved
   \<and> map_of (resultsMap twoSets) 1 = Some Unresolved
   \<and> operationPromise (fst (processResults
        (fst (bulkCommit testCollab (bulkFirestore mixedResponse) twoSets))
        [\<lparr> writeTime = Some (Timestamp 2 0), status = \<lparr> message = [], code = Some 0 \<rparr> \<rparr>,
         \<lparr> writeTime = None, status = unavailable \<rparr>])) 0
     = Some (Fulfilled (WriteResult (Timestamp 2 0)))
   \<and> operationPromise (fst (processResults
        (fst (bulkCommit testCollab (bulkFirestore mixedResponse) twoSets))
        [\<lparr> writeTime = Some (Timestamp 2 0), status = \<lparr> message = [], code = Some 0 \<rparr> \<rparr>,
         \<lparr> writeTime = None, status = unavailable \<rparr>])) 1
     = Some (Rejected unavailable)"
proof -
  have init: "initializeIfNeeded (bulkFirestore mixedResponse) = None"
    by (simp add: bulkFirestore_def testFirestore_def)
  have answer: "batchWrite (bulkFirestore mixedResponse)
      \<lparr> database = databaseName (bulkFirestore mixedResponse),
        writes = serializeWrites testCollab twoSets \<rparr> = Inr mixedResponse"
    by (simp add: bulkFirestore_def respondWith_def)
  have aligned: "length (orEmpty (batchWriteResults mixedResponse))
      \<le> length (batchStatus mixedResponse)"
    by (simp add: mixedResponse_def orEmpty_def)
  have slots: "\<forall>j<length (orEmpty (batchWriteResults mixedResponse)).
      map_of (resultsMap twoSets) j \<noteq> None"
    by (simp add: mixedResponse_def orEmpty_def bulk_result_eval(1) less_Suc_eq)
  have i0: "0 < length (orEmpty (batchWriteResults mixedResponse))"
    and i1: "1 < length (orEmpty (batchWriteResults mixedResponse))"
    by (simp_all add: mixedResponse_def orEmpty_def)
  have pending0: "map_of (resultsMap twoSets) 0 = Some Unresolved"
    and pending1: "map_of (resultsMap twoSets) 1 = Some Unresolved"
    by (simp_all add: bulk_result_eval(1))
  have results: "snd (bulkCommit testCollab (bulkFirestore mixedResponse) twoSets) = Inr rs
      \<Longrightarrow> rs = [\<lparr> writeTime = Some (Timestamp 2 0), status = \<lparr> message = [], code = Some 0 \<rparr> \<rparr>,
                \<lparr> writeTime = None, status = unavailable \<rparr>]" for rs
    by (simp add: bulk_result_eval(2))
  from bulk_result_of_operation [OF init answer aligned slots i0 pending0]
  obtain rs0
    where r0: "snd (bulkCommit testCollab (bulkFirestore mixedResponse) twoSets) = Inr rs0"
      and p0: "operationPromise (fst (processResults
          (fst (bulkCommit testCollab (bulkFirestore mixedResponse) twoSets)) rs0)) 0 =
        Some (case updateTime (orEmpty (batchWriteResults mixedResponse) ! 0) of
                 Some t \<Rightarrow> Fulfilled (WriteResult (fromProto t))
               | None \<Rightarrow> Rejected
                   \<lparr> message = (case statusMessage (batchStatus mixedResponse ! 0) of
                                  None \<Rightarrow> [] | Some s \<Rightarrow> s),
                     code = statusCode (batchStatus mixedResponse ! 0) \<rparr>)"
    by blast
  from bulk_result_of_operation [OF init answer aligned slots i1 pending1]
  obtain rs1
    where r1: "snd (bulkCommit testCollab (bulkFirestore mixedResponse) twoSets) = Inr rs1"
      and p1: "operationPromise (fst (processResults
          (fst (bulkCommit testCollab (bulkFirestore mixedResponse) twoSets)) rs1)) 1 =
        Some (case updateTime (orEmpty (batchWriteResults mixedResponse) ! 1) of
                 Some t \<Rightarrow> Fulfilled (WriteResult (fromProto t))
               | None \<Rightarrow> Rejected
                   \<lparr> message = (case statusMessage (batchStatus mixedResponse ! 1) of
                                  None \<Rightarrow> [] | Some s \<Rightarrow> s),
                     code = statusCode (batchStatus mixedResponse ! 1) \<rparr>)"
    by blast
  from p0 results [OF r0] p1 results [OF r1] init pending0 pending1 show ?thesis
    by (simp add: mixedResponse_def orEmpty_def unavailable_def)
qed

text \<open>
  The claim as stated fails: with an update time present and the status code
  \<^verbatim>\<open>UNAVAILABLE\<close> (14), the promise is fulfilled, where the claim has it rejected.
\<close>

theorem bulk_result_counterexample:
  "snd (bulkCommit testCollab
      (bulkFirestore
         \<lparr> batchWriteResults = Some [\<lparr> updateTime = Some (2, 0) \<rparr>],
           batchStatus = [\<lparr> statusCode = Some 14, statusMessage = Some ''unavailable'' \<rparr>] \<rparr>)
      (fst (set_doc testCollab (newUpdateBuilder 500) (testDoc ''doc'') fooBar JUndefined)))
     = Inr [\<lparr> writeTime = Some (Timestamp 2 0), status = unavailable \<rparr>]
   \<and> operationPromise (fst (processResults
        (fst (bulkCommit testCollab
          (bulkFirestore
             \<lparr> batchWriteResults = Some [\<lparr> updateTime = Some (2, 0) \<rparr>],
               batchStatus = [\<lparr> statusCode = Some 14, statusMessage = Some ''unavailable'' \<rparr>] \<rparr>)
          (fst (set_doc testCollab (newUpdateBuilder 500) (testDoc ''doc'') fooBar JUndefined))))
        [\<lparr> writeTime = Some (Timestamp 2 0), status = unavailable \<rparr>])) 0
     = Some (Fulfilled (WriteResult (Timestamp 2 0)))
   \<and> code unavailable \<noteq> Some OK"
  by code_simp

subsection \<open>C3: the precondition of an update\<close>

text \<open>The loop of \<^verbatim>\<open>bulkCommit\<close> and \<^verbatim>\<open>commit_\<close> sets \<^verbatim>\<open>currentDocument\<close> to the
  precondition of a payload exactly when that precondition is truthy.\<close>

lemma attachPrecondition_currentDocument:
  "currentDocument (attachPrecondition req) =
     (case precondition req of Some p \<Rightarrow> Some p | None \<Rightarrow> currentDocument (opWrite req))"
  by (simp add: attachPrecondition_def split: option.splits)

text \<open>
  Claim C3 says that every operation made by \<^verbatim>\<open>update\<close> yields a precondition, so that
  every update write carries \<^verbatim>\<open>currentDocument\<close>. The code sets the default
  \<^verbatim>\<open>{exists: true}\<close> and replaces it by whatever precondition argument the validator
  accepts. \<^verbatim>\<open>update(doc, {foo: 'bar'}, {})\<close> returns, and \<^verbatim>\<open>bulkCommit\<close> and
  \<^verbatim>\<open>commit_\<close> send its write without \<^verbatim>\<open>currentDocument\<close>; so does
  \<^verbatim>\<open>update(doc, new FieldPath('foo'))\<close>, whose only argument is read as the
  precondition. Without a precondition argument the write carries \<^verbatim>\<open>{exists: true}\<close>,
  with \<^verbatim>\<open>{lastUpdateTime}\<close> it carries the update time, and a caller's \<^verbatim>\<open>exists\<close> is
  refused.
\<close>

theorem update_drops_default_precondition:
  "snd (update testCollab (newUpdateBuilder 500) (testDoc ''doc'') [fooBar, JObj []]) = Inr 0
   \<and> filter isRpc (trace (fst (bulkCommit testCollab (testFirestore False None 0)
        (updateWith [fooBar, JObj []])))) =
      [BatchWriteRpc
         \<lparr> database = ''projects/test-project/databases/(default)'',
           writes =
             [\<lparr> writeUpdate = Some (JObj
                  [(''name'', JStr
                      ''projects/test-project/databases/(default)/documents/collectionId/doc''),
                   (''fields'', JArr [JArr [JFieldPath 0 [''foo''], JStr ''bar'']])]),
                writeDelete = None, updateMask = Some [[''foo'']],
                updateTransforms = None, currentDocument = None \<rparr>] \<rparr>]
   \<and> filter isRpc (trace (fst (commit' testCollab (testFirestore False None 0)
        (updateWith [fooBar, JObj []]) None))) =
      [CommitRpc
         \<lparr> database = ''projects/test-project/databases/(default)'',
           writes =
             [\<lparr> writeUpdate = Some (JObj
                  [(''name'', JStr
                      ''projects/test-project/databases/(default)/documents/collectionId/doc''),
                   (''fields'', JArr [JArr [JFieldPath 0 [''foo''], JStr ''bar'']])]),
                writeDelete = None, updateMask = Some [[''foo'']],
                updateTransforms = None, currentDocument = None \<rparr>],
           transaction = None \<rparr>]
   \<and> map currentDocument (serializeWrites testCollab (updateWith [fooBar]))
      = [Some (PExists True)]
   \<and> map currentDocument (serializeWrites testCollab
        (updateWith [fooBar, JObj [(''lastUpdateTime'', JTimestamp (Timestamp 1 0))]]))
      = [Some (PUpdateTime (1, 0))]
   \<and> snd (update testCollab (newUpdateBuilder 500) (testDoc ''doc'')
        [fooBar, JObj [(''exists'', JBool True)]]) = Inl (ArgumentError ExistsNotAllowed)
   \<and> snd (update testCollab (newUpdateBuilder 500) (testDoc ''doc'')
        [JFieldPath 1 [''foo'']]) = Inr 0
   \<and> map currentDocument (serializeWrites testCollab (updateWith [JFieldPath 1 [''foo'']]))
      = [None]"
  by code_simp

subsection \<open>C6: writes to the same document\<close>

lemma dispatch_empty: "batchQueue W = [] \<Longrightarrow> dispatch C F W = W"
  supply dispatch.simps [simp del]
  by (subst dispatch.simps) simp

lemma dispatch_wait:
  "batchQueue W = b # rest \<Longrightarrow>
   \<not> (length (inFlightBatches W) < maxConcurrentBatches W \<and> state b = READY_TO_SEND
       \<and> \<not> blocked W b) \<Longrightarrow>
   dispatch C F W = W"
  supply dispatch.simps [simp del]
  by (subst dispatch.simps) auto

lemma dispatch_send:
  "batchQueue W = b # rest \<Longrightarrow>
   length (inFlightBatches W) < maxConcurrentBatches W \<Longrightarrow> state b = READY_TO_SEND \<Longrightarrow>
   \<not> blocked W b \<Longrightarrow>
   dispatch C F W = dispatch C F
     (W\<lparr> batchQueue := rest,
         inFlightBatches := inFlightBatches W @ [b\<lparr>state := SENT\<rparr>],
         sentRequests := sentRequests W @
           [\<lparr> database = databaseName F, writes = serializeWrites C b \<rparr>] \<rparr>)"
  supply dispatch.simps [simp del]
  by (subst dispatch.simps) simp

lemma fresh_append:
  assumes "applyCall C (newUpdateBuilder n) c = (b1, Inr k)"
  shows "\<exists>thunk. b1 =
      \<lparr> state = (if n = 1 then READY_TO_SEND else OPEN), docPaths = [path (callRef c)],
        completedDeferred = Unresolved, resultsMap = [(0, Unresolved)], ops = [thunk],
        committed = False, maxBatchSize = n, trace = [] \<rparr>"
proof -
  from applyCall_shape [of "newUpdateBuilder n" C c] assms
  obtain thunk where "processOperation (pushOp (newUpdateBuilder n) thunk) (callRef c) = (b1, Inr k)"
    by (auto simp: earlyFailure_def pushed_def)
  then have "b1 =
      \<lparr> state = (if n = 1 then READY_TO_SEND else OPEN), docPaths = [path (callRef c)],
        completedDeferred = Unresolved, resultsMap = [(0, Unresolved)], ops = [thunk],
        committed = False, maxBatchSize = n, trace = [] \<rparr>"
    by (auto simp: processOperation_def pushOp_def newUpdateBuilder_def Let_def setAdd_def
        opCount_def split: if_splits)
  then show ?thesis ..
qed

lemma same_document_step:
  assumes "\<not> closed W" and "batchQueue W = qs @ [cur]" and "state cur = OPEN"
    and "path (callRef c) \<in> set (docPaths cur)"
    and "applyCall C (newUpdateBuilder (writerMaxBatchSize W)) c = (fresh, Inr k)"
  shows "enqueueStep C W c =
     (W\<lparr>batchQueue := qs @ [cur\<lparr>state := READY_TO_SEND\<rparr>, fresh]\<rparr>, Inr k)"
  using assms
  by (simp add: enqueueStep_def currentBatches_def splitOnSameDocument_def markReadyToSend_def
      Let_def butlast_append)


lemma dispatch_record:
  "dispatch C F \<lparr> batchQueue = q, inFlightBatches = fl, closed = cl,
       maxConcurrentBatches = mc, writerMaxBatchSize = sz, sentRequests = rq \<rparr> =
     (case q of
        [] \<Rightarrow> \<lparr> batchQueue = q, inFlightBatches = fl, closed = cl,
                maxConcurrentBatches = mc, writerMaxBatchSize = sz, sentRequests = rq \<rparr>
      | b # rest \<Rightarrow>
          if length fl < mc \<and> state b = READY_TO_SEND
             \<and> \<not> blocked \<lparr> batchQueue = q, inFlightBatches = fl, closed = cl,
                   maxConcurrentBatches = mc, writerMaxBatchSize = sz, sentRequests = rq \<rparr> b
          then dispatch C F
            \<lparr> batchQueue = rest, inFlightBatches = fl @ [b\<lparr>state := SENT\<rparr>], closed = cl,
              maxConcurrentBatches = mc, writerMaxBatchSize = sz,
              sentRequests = rq @ [\<lparr> database = databaseName F, writes = serializeWrites C b \<rparr>] \<rparr>
          else \<lparr> batchQueue = q, inFlightBatches = fl, closed = cl,
                maxConcurrentBatches = mc, writerMaxBatchSize = sz, sentRequests = rq \<rparr>)"
  supply dispatch.simps [simp del]
  by (subst dispatch.simps) (simp split: list.splits)

lemma serializeWrites_state [simp]: "serializeWrites C (b\<lparr>state := s\<rparr>) = serializeWrites C b"
  by (simp add: serializeWrites_map)

lemma blocked_iff:
  "blocked W b \<longleftrightarrow>
     (\<exists>d\<in>set (docPaths b). \<exists>f\<in>set (inFlightBatches W). d \<in> set (docPaths f))"
  by (simp add: blocked_def list_ex_iff)

lemma two_writes_two_requests:
  assumes v1: "applyCall C (newUpdateBuilder n) c1 = (b1, Inr k1)"
    and v2: "applyCall C (newUpdateBuilder n) c2 = (b2, Inr k2)"
    and same: "path (callRef c1) = path (callRef c2)"
    and m: "0 < m"
  shows "sentRequests (close C F (fst (enqueue C F (fst (enqueue C F (newBulkWriter n m) c1)) c2)))
      = [\<lparr> database = databaseName F, writes = serializeWrites C b1 \<rparr>]
    \<and> sentRequests (complete C F
          (close C F (fst (enqueue C F (fst (enqueue C F (newBulkWriter n m) c1)) c2))))
      = [\<lparr> database = databaseName F, writes = serializeWrites C b1 \<rparr>,
         \<lparr> database = databaseName F, writes = serializeWrites C b2 \<rparr>]"
  supply dispatch.simps [simp del]
proof -
  let ?r1 = "\<lparr> database = databaseName F, writes = serializeWrites C b1 \<rparr>"
  let ?r2 = "\<lparr> database = databaseName F, writes = serializeWrites C b2 \<rparr>"
  let ?W = "\<lambda>q fl cl rq. \<lparr> batchQueue = q, inFlightBatches = fl, closed = cl,
       maxConcurrentBatches = m, writerMaxBatchSize = n, sentRequests = rq \<rparr>"
  from fresh_append [OF v1] have s1: "state b1 = (if n = 1 then READY_TO_SEND else OPEN)"
    and d1: "docPaths b1 = [path (callRef c1)]" by auto
  from fresh_append [OF v2] have s2: "state b2 = (if n = 1 then READY_TO_SEND else OPEN)"
    and d2: "docPaths b2 = [path (callRef c2)]" by auto
  have new: "docPaths (newUpdateBuilder n) = []" "state (newUpdateBuilder n) = OPEN"
    by (simp_all add: newUpdateBuilder_def)
  have step1: "enqueueStep C (newBulkWriter n m) c1 = (?W [b1] [] False [], Inr k1)"
    using v1 by (simp add: enqueueStep_def newBulkWriter_def currentBatches_def
        splitOnSameDocument_def new Let_def)
  show ?thesis
  proof (cases "n = 1")
    case True
    have r1: "state b1 = READY_TO_SEND" and r2: "state b2 = READY_TO_SEND"
      using s1 s2 True by simp_all
    have e1: "fst (enqueue C F (newBulkWriter n m) c1) = ?W [] [b1\<lparr>state := SENT\<rparr>] False [?r1]"
      using m r1 by (simp add: enqueue_def step1 dispatch_record blocked_iff)
    have step2: "enqueueStep C (?W [] [b1\<lparr>state := SENT\<rparr>] False [?r1]) c2 =
        (?W [b2] [b1\<lparr>state := SENT\<rparr>] False [?r1], Inr k2)"
      using v2 by (simp add: enqueueStep_def currentBatches_def splitOnSameDocument_def
          new Let_def)
    have blk: "blocked (?W [b2] [b1\<lparr>state := SENT\<rparr>] cl [?r1]) b2" for cl
      using d1 d2 same by (simp add: blocked_iff)
    have e2: "fst (enqueue C F (?W [] [b1\<lparr>state := SENT\<rparr>] False [?r1]) c2) =
        ?W [b2] [b1\<lparr>state := SENT\<rparr>] False [?r1]"
      using blk [of False] by (simp add: enqueue_def step2 dispatch_record)
    have cl: "close C F (?W [b2] [b1\<lparr>state := SENT\<rparr>] False [?r1]) =
        ?W [b2] [b1\<lparr>state := SENT\<rparr>] True [?r1]"
      using blk [of False] r2
      by (simp add: close_def flush_def markReadyToSend_def dispatch_record)
    have co: "complete C F (?W [b2] [b1\<lparr>state := SENT\<rparr>] True [?r1]) =
        ?W [] [b2\<lparr>state := SENT\<rparr>] True [?r1, ?r2]"
      using r2 m by (simp add: complete_def dispatch_record blocked_iff)
    show ?thesis by (simp add: e1 e2 cl co)
  next
    case False
    have o1: "state b1 = OPEN" and o2: "state b2 = OPEN"
      using s1 s2 False by simp_all
    have e1: "fst (enqueue C F (newBulkWriter n m) c1) = ?W [b1] [] False []"
      using o1 by (simp add: enqueue_def step1 dispatch_record)
    have step2: "enqueueStep C (?W [b1] [] False []) c2 =
        (?W [b1\<lparr>state := READY_TO_SEND\<rparr>, b2] [] False [], Inr k2)"
      using v2 o1 d1 same
      by (simp add: enqueueStep_def currentBatches_def splitOnSameDocument_def
          markReadyToSend_def Let_def)
    have e2: "fst (enqueue C F (?W [b1] [] False []) c2) =
        ?W [b2] [b1\<lparr>state := SENT\<rparr>] False [?r1]"
      using m o2 by (simp add: enqueue_def step2 dispatch_record blocked_iff)
    have blk: "blocked (?W [b2\<lparr>state := READY_TO_SEND\<rparr>] [b1\<lparr>state := SENT\<rparr>] cl [?r1])
        (b2\<lparr>state := READY_TO_SEND\<rparr>)" for cl
      using d1 d2 same by (simp add: blocked_iff)
    have cl: "close C F (?W [b2] [b1\<lparr>state := SENT\<rparr>] False [?r1]) =
        ?W [b2\<lparr>state := READY_TO_SEND\<rparr>] [b1\<lparr>state := SENT\<rparr>] True [?r1]"
      using blk [of False] o2
      by (simp add: close_def flush_def markReadyToSend_def dispatch_record)
    have co: "complete C F (?W [b2\<lparr>state := READY_TO_SEND\<rparr>] [b1\<lparr>state := SENT\<rparr>] True [?r1]) =
        ?W [] [b2\<lparr>state := SENT\<rparr>] True [?r1, ?r2]"
      using m by (simp add: complete_def dispatch_record blocked_iff)
    show ?thesis by (simp add: e1 e2 cl co)
  qed
qed


text \<open>
  Claim C6. When a write is enqueued on a writer that is not closed, whose last batch is
  open and already holds the document path of the write, that batch becomes ready to
  send and the write is appended to a new batch placed after it. Consequently, when two
  writes to the same document are enqueued on a new writer that is then closed, the first
  request carries the first write alone, and the second request, issued once the first
  has completed, carries the second write alone.
\<close>

theorem same_document_separate_batches:
  "(\<not> closed W \<and> batchQueue W = qs @ [cur] \<and> state cur = OPEN
      \<and> path (callRef c) \<in> set (docPaths cur)
      \<and> applyCall C (newUpdateBuilder (writerMaxBatchSize W)) c = (fresh, Inr k)
     \<longrightarrow> enqueueStep C W c =
           (W\<lparr>batchQueue := qs @ [cur\<lparr>state := READY_TO_SEND\<rparr>, fresh]\<rparr>, Inr k))
   \<and> (applyCall C (newUpdateBuilder n) c1 = (b1, Inr k1)
      \<and> applyCall C (newUpdateBuilder n) c2 = (b2, Inr k2)
      \<and> path (callRef c1) = path (callRef c2) \<and> 0 < m
     \<longrightarrow> sentRequests (close C F
             (fst (enqueue C F (fst (enqueue C F (newBulkWriter n m) c1)) c2)))
           = [\<lparr> database = databaseName F, writes = serializeWrites C b1 \<rparr>]
         \<and> sentRequests (complete C F (close C F
             (fst (enqueue C F (fst (enqueue C F (newBulkWriter n m) c1)) c2))))
           = [\<lparr> database = databaseName F, writes = serializeWrites C b1 \<rparr>,
              \<lparr> database = databaseName F, writes = serializeWrites C b2 \<rparr>]
         \<and> length (serializeWrites C b1) = 1 \<and> length (serializeWrites C b2) = 1)"
  supply dispatch.simps [simp del]
proof (intro conjI impI)
  assume "\<not> closed W \<and> batchQueue W = qs @ [cur] \<and> state cur = OPEN
      \<and> path (callRef c) \<in> set (docPaths cur)
      \<and> applyCall C (newUpdateBuilder (writerMaxBatchSize W)) c = (fresh, Inr k)"
  then show "enqueueStep C W c =
      (W\<lparr>batchQueue := qs @ [cur\<lparr>state := READY_TO_SEND\<rparr>, fresh]\<rparr>, Inr k)"
    using same_document_step [of W qs cur c C fresh k] by blast
next
  assume a: "applyCall C (newUpdateBuilder n) c1 = (b1, Inr k1)
      \<and> applyCall C (newUpdateBuilder n) c2 = (b2, Inr k2)
      \<and> path (callRef c1) = path (callRef c2) \<and> 0 < m"
  then have v1: "applyCall C (newUpdateBuilder n) c1 = (b1, Inr k1)"
    and v2: "applyCall C (newUpdateBuilder n) c2 = (b2, Inr k2)"
    and same: "path (callRef c1) = path (callRef c2)" and m: "0 < m"
    by simp_all
  from two_writes_two_requests [OF v1 v2 same m, of F]
  show "sentRequests (close C F
             (fst (enqueue C F (fst (enqueue C F (newBulkWriter n m) c1)) c2)))
           = [\<lparr> database = databaseName F, writes = serializeWrites C b1 \<rparr>]"
    and "sentRequests (complete C F (close C F
             (fst (enqueue C F (fst (enqueue C F (newBulkWriter n m) c1)) c2))))
           = [\<lparr> database = databaseName F, writes = serializeWrites C b1 \<rparr>,
              \<lparr> database = databaseName F, writes = serializeWrites C b2 \<rparr>]"
    by simp_all
  from fresh_append [OF v1] show "length (serializeWrites C b1) = 1"
    by (auto simp: serializeWrites_map)
  from fresh_append [OF v2] show "length (serializeWrites C b2) = 1"
    by (auto simp: serializeWrites_map)
qed

lemma same_document_eval:
  "applyCall testCollab (newUpdateBuilder 500) setDoc = (batchOf setDoc, Inr 0)"
  "applyCall testCollab (newUpdateBuilder 500) updateDoc = (batchOf updateDoc, Inr 0)"
  "path (callRef setDoc) = path (callRef updateDoc)"
  "state (batchOf setDoc) = OPEN"
  "path (callRef updateDoc) \<in> set (docPaths (batchOf setDoc))"
  by code_simp+

theorem same_document_separate_batches_witness:
  "enqueueStep testCollab ((newBulkWriter 500 1)\<lparr>batchQueue := [batchOf setDoc]\<rparr>) updateDoc =
     ((newBulkWriter 500 1)
        \<lparr>batchQueue := [(batchOf setDoc)\<lparr>state := READY_TO_SEND\<rparr>, batchOf updateDoc]\<rparr>, Inr 0)
   \<and> sentRequests (complete testCollab (testFirestore False None 0)
        (close testCollab (testFirestore False None 0)
          (fst (enqueue testCollab (testFirestore False None 0)
            (fst (enqueue testCollab (testFirestore False None 0) (newBulkWriter 500 1) setDoc))
            updateDoc))))
     = [\<lparr> database = databaseName (testFirestore False None 0),
           writes = serializeWrites testCollab (batchOf setDoc) \<rparr>,
        \<lparr> database = databaseName (testFirestore False None 0),
           writes = serializeWrites testCollab (batchOf updateDoc) \<rparr>]"
  supply dispatch.simps [simp del]
proof -
  have w: "\<not> closed ((newBulkWriter 500 1)\<lparr>batchQueue := [batchOf setDoc]\<rparr>)"
    "batchQueue ((newBulkWriter 500 1)\<lparr>batchQueue := [batchOf setDoc]\<rparr>) = [] @ [batchOf setDoc]"
    "writerMaxBatchSize ((newBulkWriter 500 1)\<lparr>batchQueue := [batchOf setDoc]\<rparr>) = 500"
    by (simp_all add: newBulkWriter_def)
  note t = same_document_separate_batches [of
      "(newBulkWriter 500 1)\<lparr>batchQueue := [batchOf setDoc]\<rparr>" "[]" "batchOf setDoc"
      updateDoc testCollab "batchOf updateDoc" 0
      500 setDoc "batchOf setDoc" 0 updateDoc "batchOf updateDoc" 0 1
      "testFirestore False None 0"]
  from t w same_document_eval show ?thesis
    by simp
qed

subsection \<open>C7: document paths and stored operations\<close>

text \<open>What every call does preserve: the document paths and the result slots stay in
  step, and no path is recorded twice. \<^verbatim>\<open>_reset\<close> leaves both as they are.\<close>

lemma mapSet_fresh: "k \<notin> fst ` set m \<Longrightarrow> mapSet m k v = m @ [(k, v)]"
  by (induction m) auto

lemma slotsAligned_new: "slotsAligned (newUpdateBuilder n)"
  by (simp add: slotsAligned_def newUpdateBuilder_def)

lemma slotsAligned_processOperation:
  assumes "slotsAligned b"
  shows "slotsAligned (fst (processOperation b r))"
proof (cases "snd (processOperation b r)")
  case (Inl e)
  then have "processOperation b r = (fst (processOperation b r), Inl e)"
    by (metis prod.collapse)
  from processOperation_failure(1) [OF this] assms show ?thesis by simp
next
  case (Inr k)
  then have po: "processOperation b r = (fst (processOperation b r), Inr k)"
    by (metis prod.collapse)
  note s = processOperation_success [OF po]
  have "opCount b \<notin> fst ` set (resultsMap b)"
  proof -
    have "fst ` set (resultsMap b) = set (map fst (resultsMap b))" by simp
    also have "\<dots> = {0..<length (resultsMap b)}"
      using assms by (simp add: slotsAligned_def)
    finally show ?thesis by (simp add: opCount_def)
  qed
  then have "resultsMap (fst (processOperation b r)) = resultsMap b @ [(opCount b, Unresolved)]"
    using s(5) by (simp add: mapSet_fresh)
  with s(1,4) assms show ?thesis
    by (simp add: slotsAligned_def opCount_def)
qed

lemma slotsAligned_applyCall:
  assumes "slotsAligned b"
  shows "slotsAligned (fst (applyCall C b c))"
proof -
  have "slotsAligned (pushOp b thunk)" for thunk
    using assms by (simp add: slotsAligned_def)
  from slotsAligned_processOperation [OF this] applyCall_shape [of b C c] assms
  show ?thesis
    by (auto simp: earlyFailure_def pushed_def)
qed

lemma slotsAligned_reset: "slotsAligned (reset b) \<longleftrightarrow> slotsAligned b"
  by (simp add: slotsAligned_def reset_def)

text \<open>
  Claim C7 says that \<^verbatim>\<open>docPaths\<close> and \<^verbatim>\<open>_ops\<close> always have the same size. On the
  batch of the test, after one \<^verbatim>\<open>create\<close> both hold one entry. A second \<^verbatim>\<open>create\<close>
  of the same document throws the assertion of \<^verbatim>\<open>processOperation\<close> after its payload
  producer was pushed: \<^verbatim>\<open>_ops\<close> holds two entries and \<^verbatim>\<open>docPaths\<close> one. After
  \<^verbatim>\<open>_reset\<close> the operation list is empty while \<^verbatim>\<open>docPaths\<close> and the result slots
  still hold one entry.
\<close>

theorem docPaths_ops_diverge:
  "length (docPaths oneCreate) = 1 \<and> length (ops oneCreate) = 1
   \<and> snd (create testCollab oneCreate (testDoc ''doc'') fooBar) = Inl SameDocumentAssertion
   \<and> length (docPaths (fst (create testCollab oneCreate (testDoc ''doc'') fooBar))) = 1
   \<and> opCount (fst (create testCollab oneCreate (testDoc ''doc'') fooBar)) = 1
   \<and> length (ops (fst (create testCollab oneCreate (testDoc ''doc'') fooBar))) = 2
   \<and> length (docPaths (reset oneCreate)) = 1
   \<and> opCount (reset oneCreate) = 1
   \<and> length (ops (reset oneCreate)) = 0"
  by code_simp

subsection \<open>C8: conflicting field paths\<close>

lemma compareTo_le: "compareTo p q \<le> 0 \<longleftrightarrow> p \<le> q"
  by (induction p q rule: compareTo.induct) auto

lemma set_insortBy: "set (insortBy cmp x xs) = insert x (set xs)"
  by (induction xs) auto

lemma distinct_insortBy: "distinct (insortBy cmp x xs) \<longleftrightarrow> x \<notin> set xs \<and> distinct xs"
  by (induction xs) (auto simp: set_insortBy)

lemma sorted_insortBy: "sorted xs \<Longrightarrow> sorted (insortBy compareTo x xs)"
  by (induction xs) (auto simp: set_insortBy compareTo_le)

lemma set_sortBy: "set (sortBy cmp xs) = set xs"
  by (induction xs) (auto simp: set_insortBy)

lemma distinct_sortBy: "distinct (sortBy cmp xs) \<longleftrightarrow> distinct xs"
  by (induction xs) (auto simp: distinct_insortBy set_sortBy)

lemma sorted_sortBy: "sorted (sortBy compareTo xs)"
  by (induction xs) (auto simp: sorted_insortBy)

lemma isPrefixOf_refl: "isPrefixOf p p"
  by (induction p) auto

lemma isPrefixOf_le: "isPrefixOf p q \<Longrightarrow> p \<le> q"
  by (induction p q rule: isPrefixOf.induct) auto

lemma isPrefixOf_between:
  "isPrefixOf p q \<Longrightarrow> p \<le> r \<Longrightarrow> r \<le> q \<Longrightarrow> isPrefixOf p r"
proof (induction p q arbitrary: r rule: isPrefixOf.induct)
  case (1 q)
  then show ?case by simp
next
  case (2 a p)
  then show ?case by simp
next
  case (3 a p b q)
  then obtain c r' where r: "r = c # r'"
    by (cases r) auto
  with 3 show ?case
    by auto
qed

lemma firstConflict_sorted:
  assumes "sorted xs"
    and "\<not> distinct xs \<or> (\<exists>p\<in>set xs. \<exists>q\<in>set xs. p \<noteq> q \<and> isPrefixOf p q)"
  shows "firstConflict xs \<noteq> None"
  using assms
proof (induction xs rule: firstConflict.induct)
  case (1 p q fs)
  show ?case
  proof (cases "isPrefixOf p q")
    case True
    then show ?thesis by simp
  next
    case False
    have le: "\<forall>y\<in>set (q # fs). p \<le> y" and le': "\<forall>y\<in>set fs. q \<le> y" and srt: "sorted (q # fs)"
      using "1.prems"(1) by auto
    have notin: "p \<notin> set (q # fs)"
    proof
      assume "p \<in> set (q # fs)"
      then have "q \<le> p" using le' by auto
      moreover have "p \<le> q" using le by auto
      ultimately have "p = q" by simp
      with False show False by (simp add: isPrefixOf_refl)
    qed
    have "\<not> distinct (q # fs) \<or> (\<exists>a\<in>set (q # fs). \<exists>b\<in>set (q # fs). a \<noteq> b \<and> isPrefixOf a b)"
    proof (rule ccontr)
      assume neg: "\<not> ?thesis"
      from "1.prems"(2) notin neg
      obtain a b where ab: "a \<in> set (p # q # fs)" "b \<in> set (p # q # fs)" "a \<noteq> b" "isPrefixOf a b"
        by auto
      from neg ab have "a = p \<or> b = p" by auto
      then show False
      proof
        assume "a = p"
        with ab have bin: "b \<in> set (q # fs)" by auto
        then have "q \<le> b" using le' by auto
        moreover have "p \<le> q" using le by auto
        ultimately have "isPrefixOf p q"
          using isPrefixOf_between ab(4) \<open>a = p\<close> by blast
        with False show False by simp
      next
        assume "b = p"
        with ab have ain: "a \<in> set (q # fs)" by auto
        then have "p \<le> a" using le by auto
        moreover have "a \<le> p" using isPrefixOf_le ab(4) \<open>b = p\<close> by blast
        ultimately show False using ab(3) \<open>b = p\<close> by simp
      qed
    qed
    with "1.IH" [OF False srt] False show ?thesis by simp
  qed
qed simp_all

lemma validateNoConflictingFields_detects:
  assumes "i < length m" "j < length m" "i \<noteq> j"
    and "isPrefixOf (snd (fst (m ! i))) (snd (fst (m ! j)))"
  shows "validateNoConflictingFields m \<noteq> None"
proof -
  let ?fs = "map (\<lambda>(k, v). snd k) m"
  have fi: "?fs ! i = snd (fst (m ! i))" and fj: "?fs ! j = snd (fst (m ! j))"
    using assms by (simp_all add: case_prod_beta)
  have len: "i < length ?fs" "j < length ?fs" using assms by simp_all
  have "\<not> distinct ?fs \<or> (\<exists>p\<in>set ?fs. \<exists>q\<in>set ?fs. p \<noteq> q \<and> isPrefixOf p q)"
  proof (cases "?fs ! i = ?fs ! j")
    case True
    then have "\<not> distinct ?fs"
      using len assms(3) by (auto simp: distinct_conv_nth)
    then show ?thesis ..
  next
    case False
    moreover have "?fs ! i \<in> set ?fs" "?fs ! j \<in> set ?fs"
      using len nth_mem by blast+
    ultimately show ?thesis
      using assms(4) fi fj by metis
  qed
  then have "\<not> distinct (sortBy compareTo ?fs)
      \<or> (\<exists>p\<in>set (sortBy compareTo ?fs). \<exists>q\<in>set (sortBy compareTo ?fs). p \<noteq> q \<and> isPrefixOf p q)"
    by (simp add: distinct_sortBy set_sortBy)
  from firstConflict_sorted [OF sorted_sortBy this]
  show ?thesis
    by (auto simp: validateNoConflictingFields_def split: option.splits)
qed

text \<open>
  Claim C8. When the update map that a call of \<^verbatim>\<open>update\<close> builds from its arguments
  holds two entries of which the field path of one is a prefix of the field path of the
  other (equal paths included), the call throws and returns the batch as it was: the
  operation list, \<^verbatim>\<open>docPaths\<close>, the result slots and the state are unchanged.
\<close>

theorem update_conflicting_fields:
  assumes "updateArguments C args = Inr (updateMap, pre)"
    and "i < length updateMap" and "j < length updateMap" and "i \<noteq> j"
    and "isPrefixOf (snd (fst (updateMap ! i))) (snd (fst (updateMap ! j)))"
  shows "\<exists>e. update C b documentRef args = (b, Inl e)"
  using assms(1) validateNoConflictingFields_detects [OF assms(2-5)]
  by (auto simp: update_def verifyNotCommitted_def)

lemma conflicting_arguments_eval:
  "updateArguments testCollab [JObj [(''a'', JNum 1), (''a.b'', JNum 2)]] =
     Inr ([((Fresh 0, [''a'']), JNum 1), ((Fresh 1, [''a'', ''b'']), JNum 2)],
          defaultUpdatePrecondition)"
  by code_simp

theorem update_conflicting_fields_witness:
  "updateArguments testCollab [JObj [(''a'', JNum 1), (''a.b'', JNum 2)]] =
     Inr ([((Fresh 0, [''a'']), JNum 1), ((Fresh 1, [''a'', ''b'']), JNum 2)],
          defaultUpdatePrecondition)
   \<and> isPrefixOf [''a''] [''a'', ''b'']
   \<and> (\<exists>e. update testCollab (newUpdateBuilder 500) (testDoc ''doc'')
             [JObj [(''a'', JNum 1), (''a.b'', JNum 2)]] = (newUpdateBuilder 500, Inl e))"
  using update_conflicting_fields [OF conflicting_arguments_eval, of 0 1
      "newUpdateBuilder 500" "testDoc ''doc''"]
  by (simp add: conflicting_arguments_eval)

subsection \<open>C9: reuse after a reset\<close>

text \<open>
  Claim C9 says that a batch behaves as a fresh one after \<^verbatim>\<open>_reset\<close>. After a
  \<^verbatim>\<open>create\<close>, a commit and \<^verbatim>\<open>_reset\<close> the operation list is empty and the committed
  flag is false, but \<^verbatim>\<open>docPaths\<close>, the result slots and the state are kept: a
  \<^verbatim>\<open>create\<close> of the same document throws the assertion on \<^verbatim>\<open>docPaths\<close>, a
  \<^verbatim>\<open>create\<close> of another document gets the result slot 1 where a fresh batch gives the
  slot 0, and on a batch that was marked ready to send every \<^verbatim>\<open>create\<close> throws the
  assertion on the state.
\<close>

theorem reset_then_same_document:
  "ops (reset (fst (commit' testCollab (testFirestore False None 0) oneCreate None))) = []
   \<and> \<not> committed (reset (fst (commit' testCollab (testFirestore False None 0) oneCreate None)))
   \<and> docPaths (reset (fst (commit' testCollab (testFirestore False None 0) oneCreate None)))
        = [''collectionId/doc'']
   \<and> snd (create testCollab
        (reset (fst (commit' testCollab (testFirestore False None 0) oneCreate None)))
        (testDoc ''doc'') fooBar) = Inl SameDocumentAssertion
   \<and> snd (create testCollab (newUpdateBuilder 500) (testDoc ''doc'') fooBar) = Inr 0
   \<and> snd (create testCollab
        (reset (fst (commit' testCollab (testFirestore False None 0) oneCreate None)))
        (testDoc ''doc2'') fooBar) = Inr 1
   \<and> snd (create testCollab (newUpdateBuilder 500) (testDoc ''doc2'') fooBar) = Inr 0
   \<and> snd (create testCollab (reset (markReadyToSend oneCreate)) (testDoc ''doc2'') fooBar)
        = Inl BatchNotOpenAssertion"
  by code_simp

end
